theory Spec2Isabelle
  imports Complex_Main
begin

text \<open>
  A model of the stream-probe engine of the IPTV monitor: the probe \<open>check_ts\<close>, the
  playlist parser \<open>parse_m3u\<close>, the fetcher \<open>fetch_text\<close> and \<open>Monitor.run_once\<close> of
  \<open>worker.py\<close>, and \<open>probe_channel\<close> and the carry-over between iterations of
  \<open>run_local_test.py\<close>.

  Whatever the program gets from outside is an argument of the model: what the inspection
  process returns, what the HTTP session answers, what the clock reads, which lines a
  reader gets. A function that can raise returns a sum, with the exception on the left.
  The definitions come first, the properties after them.
\<close>

section \<open>Python strings\<close>

text \<open>
  A Python \<open>str\<close> is modelled as a \<^typ>\<open>string\<close>; a \<^typ>\<open>char\<close> stands for a code
  point below 256. The character classes below are Python's, cut down to that range.
  Floating-point numbers (clock readings, durations) are modelled as exact rationals.
\<close>

definition is_space :: "char \<Rightarrow> bool" where
  \<comment> \<open>\<open>str.isspace\<close>: the characters \<open>str.strip()\<close> removes\<close>
  "is_space c = (c \<in> set [CHR 0x09, CHR 0x0A, CHR 0x0B, CHR 0x0C, CHR 0x0D, CHR 0x1C,
     CHR 0x1D, CHR 0x1E, CHR 0x1F, CHR 0x20, CHR 0x85, CHR 0xA0])"

definition is_linebreak :: "char \<Rightarrow> bool" where
  \<comment> \<open>the line boundaries of \<open>str.splitlines()\<close>\<close>
  "is_linebreak c = (c \<in> set [CHR 0x0A, CHR 0x0B, CHR 0x0C, CHR 0x0D, CHR 0x1C, CHR 0x1D,
     CHR 0x1E, CHR 0x85])"

definition is_digit :: "char \<Rightarrow> bool" where
  \<comment> \<open>the regular expression class \<open>\d\<close>\<close>
  "is_digit c = (c \<in> set ''0123456789'')"

definition strip :: "string \<Rightarrow> string" where
  "strip s = rev (dropWhile is_space (rev (dropWhile is_space s)))"

definition lower_char :: "char \<Rightarrow> char" where
  "lower_char c = (let n = (of_char c :: nat) in
     if (65 \<le> n \<and> n \<le> 90) \<or> (192 \<le> n \<and> n \<le> 222 \<and> n \<noteq> 215)
     then char_of (n + 32) else c)"

definition lower :: "string \<Rightarrow> string" where
  "lower s = map lower_char s"

fun startswith :: "string \<Rightarrow> string \<Rightarrow> bool" where
  \<comment> \<open>\<open>startswith s p\<close> is \<open>s.startswith(p)\<close>\<close>
  "startswith s [] = True"
| "startswith [] (p # ps) = False"
| "startswith (c # cs) (p # ps) = (c = p \<and> startswith cs ps)"

fun contains :: "string \<Rightarrow> string \<Rightarrow> bool" where
  \<comment> \<open>\<open>contains sub s\<close> is \<open>sub in s\<close>\<close>
  "contains sub [] = (sub = [])"
| "contains sub (c # cs) = (startswith (c # cs) sub \<or> contains sub cs)"

fun re_search_group :: "string \<Rightarrow> (char \<Rightarrow> bool) \<Rightarrow> string \<Rightarrow> string option" where
  \<comment> \<open>\<open>re.search(key + '([cls]+)', text)\<close>: the group of the leftmost match, if any\<close>
  "re_search_group key cls [] = None"
| "re_search_group key cls (c # cs) =
     (let g = takeWhile cls (drop (length key) (c # cs))
      in if startswith (c # cs) key \<and> g \<noteq> [] then Some g
         else re_search_group key cls cs)"

definition float_valid :: "string \<Rightarrow> bool" where
  \<comment> \<open>whether \<open>float(g)\<close> succeeds, for a \<open>g\<close> made of digits and dots: Python accepts
      \<open>1\<close>, \<open>1.\<close>, \<open>.5\<close> and \<open>1.5\<close>, and raises ValueError otherwise\<close>
  "float_valid g = (length (filter (\<lambda>c. c = CHR ''.'') g) \<le> 1 \<and> list_ex is_digit g)"

section \<open>The probe: \<open>check_ts\<close> (worker.py)\<close>

datatype status = Pending | Testing | Pass | Issue | Buffering | Error

text \<open>
  What \<open>subprocess.run\<close> does with the ffprobe command: it returns a completed process
  (return code, stdout, stderr) or raises an exception, of which only \<open>str(e)\<close> is used;
  the \<open>TimeoutExpired\<close> of its own limit, \<open>timeout=15\<close>, is one such exception.
  \<open>time_start\<close> and \<open>time_end\<close> are the two readings of the clock in \<open>_check\<close>.
\<close>

datatype proc_outcome = Completed int string string | RunRaised string

datatype exn = TimeoutError | Exception string

record probe_env =
  run :: "string list \<Rightarrow> proc_outcome"
  time_start :: rat
  time_end :: rat

type_synonym probe_result = "status \<times> string \<times> string option \<times> rat option"

definition ffprobe_cmd :: "string \<Rightarrow> string list" where
  "ffprobe_cmd url = [''ffprobe'', ''-v'', ''error'', ''-show_streams'', ''-show_format'', ''-i'', url]"

definition float_error :: "string \<Rightarrow> string" where
  \<comment> \<open>\<open>str(e)\<close> of the ValueError that \<open>float(g)\<close> raises\<close>
  "float_error g = ''could not convert string to float: '' @ [CHR 0x27] @ g @ [CHR 0x27]"

definition parse_duration :: "string \<Rightarrow> exn + unit" where
  \<comment> \<open>\<open>dur_match = re.search(r'duration=([\d\.]+)', out)\<close> and, on a match,
      \<open>duration = float(dur_match.group(1))\<close>; the value is never used afterwards, so
      only the ValueError of a failed conversion is kept\<close>
  "parse_duration out =
    (case re_search_group ''duration='' (\<lambda>c. is_digit c \<or> c = CHR ''.'') out of
       None \<Rightarrow> Inr ()
     | Some g \<Rightarrow> if float_valid g then Inr () else Inl (Exception (float_error g)))"

definition classify :: "string \<Rightarrow> rat \<Rightarrow> exn + probe_result" where
  \<comment> \<open>the \<open>else\<close> branch of \<open>_check\<close> (return code 0) up to the \<open>return\<close>\<close>
  "classify out dt =
    (let notes1 = (if contains ''codec_type=video'' out then ''[video detected] '' else '''');
         notes2 = notes1 @ (if contains ''codec_type=audio'' out then ''[audio detected] '' else '''');
         w = re_search_group ''width='' is_digit out;
         h = re_search_group ''height='' is_digit out;
         resolution = (case (w, h) of (Some a, Some b) \<Rightarrow> a @ ''x'' @ b | _ \<Rightarrow> '''');
         notes3 = (case (w, h) of
                     (Some a, Some b) \<Rightarrow> strip (notes2 @ ''[video detected '' @ resolution @ ''] '')
                   | _ \<Rightarrow> notes2)
     in case parse_duration out of
          Inl e \<Rightarrow> Inl e
        | Inr _ \<Rightarrow>
            (if contains ''error'' out \<or> contains ''buffer'' out
             then Inr (Buffering, strip (notes3 @ ''[ffprobe buffering] ''), Some resolution, Some dt)
             else Inr (Pass, strip notes3, Some resolution, Some dt)))"

definition check_body :: "probe_env \<Rightarrow> string \<Rightarrow> exn + probe_result" where
  \<comment> \<open>the \<open>try\<close> block of \<open>_check\<close>\<close>
  "check_body env url =
    (case run env (ffprobe_cmd url) of
       RunRaised m \<Rightarrow> Inl (Exception m)
     | Completed returncode out err \<Rightarrow>
         if returncode \<noteq> 0
         then Inr (Buffering, strip (''ffprobe error: '' @ strip err), Some '''',
                   Some (time_end env - time_start env))
         else classify out (time_end env - time_start env))"

definition exn_str :: "exn \<Rightarrow> string" where
  \<comment> \<open>\<open>str(e)\<close>\<close>
  "exn_str e = (case e of TimeoutError \<Rightarrow> '''' | Exception m \<Rightarrow> m)"

definition check_inner :: "probe_env \<Rightarrow> string \<Rightarrow> exn + probe_result" where
  \<comment> \<open>\<open>_check\<close>: the body under \<open>except Exception as e\<close>\<close>
  "check_inner env url =
    (case check_body env url of
       Inl e \<Rightarrow> Inr (Error, exn_str e, None, None)
     | Inr r \<Rightarrow> Inr r)"

text \<open>
  \<open>asyncio.wait_for(_check(), timeout=per_check_timeout)\<close>. The coroutine \<open>_check\<close> has no
  \<open>await\<close>: once started it runs to its \<open>return\<close> in one step, \<open>subprocess.run\<close> holding
  the event loop all the while, so that the timer of \<open>wait_for\<close> cannot run before the
  result is there, and \<open>wait_for\<close> hands the result back however long the step took. With
  a timeout of 0 or less \<open>wait_for\<close> cancels the coroutine before it starts and raises
  \<open>asyncio.TimeoutError\<close>.
\<close>

definition wait_for :: "int \<Rightarrow> exn + 'a \<Rightarrow> exn + 'a" where
  "wait_for timeout inner = (if timeout \<le> 0 then Inl TimeoutError else inner)"

definition check_ts :: "probe_env \<Rightarrow> string \<Rightarrow> int \<Rightarrow> exn + probe_result" where
  "check_ts env url per_check_timeout =
    (case wait_for per_check_timeout (check_inner env url) of
       Inl TimeoutError \<Rightarrow> Inr (Error, ''timeout'', None, None)
     | Inl (Exception m) \<Rightarrow> Inr (Error, m, None, None)
     | Inr r \<Rightarrow> Inr r)"


section \<open>The playlist parser: \<open>parse_m3u\<close> (worker.py)\<close>

fun splitlines_acc :: "string \<Rightarrow> string \<Rightarrow> string list" where
  \<comment> \<open>\<open>cur\<close> is the line being read; \<open>\r\n\<close> is one boundary; a final boundary opens no
      further line\<close>
  "splitlines_acc cur [] = (if cur = [] then [] else [cur])"
| "splitlines_acc cur [c] = (if is_linebreak c then [cur] else [cur @ [c]])"
| "splitlines_acc cur (c # d # cs) =
     (if c = CHR 0x0D \<and> d = CHR 0x0A then cur # splitlines_acc [] cs
      else if is_linebreak c then cur # splitlines_acc [] (d # cs)
      else splitlines_acc (cur @ [c]) (d # cs))"

definition splitlines :: "string \<Rightarrow> string list" where
  "splitlines text = splitlines_acc [] text"

definition extinf_name :: "string \<Rightarrow> string" where
  \<comment> \<open>\<open>line.split(',', 1)[1] if ',' in line else 'unknown'\<close>\<close>
  "extinf_name line =
    (if CHR '','' \<in> set line then tl (dropWhile (\<lambda>c. c \<noteq> CHR '','') line) else ''unknown'')"

function scan_url :: "string list \<Rightarrow> nat \<Rightarrow> nat" where
  \<comment> \<open>the inner loop: \<open>while j < len(lines) and (not lines[j] or lines[j].startswith('#')): j += 1\<close>\<close>
  "scan_url lines j =
    (if j < length lines \<and> (lines ! j = [] \<or> startswith (lines ! j) ''#'')
     then scan_url lines (j + 1) else j)"
  by pat_completeness auto
termination
  by (relation "measure (\<lambda>(lines, j). length lines - j)") auto

declare scan_url.simps [simp del]

function parse_loop :: "string list \<Rightarrow> nat \<Rightarrow> (string \<times> string) list \<Rightarrow> (string \<times> string) list" where
  \<comment> \<open>the outer loop \<open>while i < len(lines)\<close>, from index \<open>i\<close> with the items found so far\<close>
  "parse_loop lines i items =
    (if i < length lines then
       (if startswith (lines ! i) ''#EXTINF'' then
          (let name = extinf_name (lines ! i);
               j = scan_url lines (i + 1);
               url = (if j < length lines then Some (lines ! j) else None)
           in parse_loop lines (j + 1)
                (case url of
                   Some u \<Rightarrow> if u \<noteq> [] then items @ [(name, u)] else items
                 | None \<Rightarrow> items))
        else parse_loop lines (i + 1) items)
     else items)"
  by pat_completeness auto
termination
proof (relation "measure (\<lambda>(lines, i, items). length lines - i)")
  show "wf (measure (\<lambda>(lines, i, items). length lines - i))" by simp
next
  fix lines :: "string list" and i :: nat and items :: "(string \<times> string) list"
    and x :: string and xa :: nat and xb :: "string option"
  assume "i < length lines" and "xa = scan_url lines (i + 1)"
  have "k \<le> scan_url lines k" for k
  proof (induction lines k rule: scan_url.induct)
    case (1 lines j)
    then show ?case by (subst scan_url.simps) auto
  qed
  then have "i + 1 \<le> scan_url lines (i + 1)" .
  with \<open>i < length lines\<close> \<open>xa = scan_url lines (i + 1)\<close>
  show "((lines, xa + 1,
          case xb of None \<Rightarrow> items | Some u \<Rightarrow> if u \<noteq> [] then items @ [(x, u)] else items),
         lines, i, items) \<in> measure (\<lambda>(lines, i, items). length lines - i)"
    by simp
next
  fix lines :: "string list" and i :: nat and items :: "(string \<times> string) list"
  assume "i < length lines"
  then show "((lines, i + 1, items), lines, i, items) \<in> measure (\<lambda>(lines, i, items). length lines - i)"
    by simp
qed

declare parse_loop.simps [simp del]

definition parse_m3u :: "string \<Rightarrow> (string \<times> string) list" where
  "parse_m3u text = parse_loop (map strip (splitlines text)) 0 []"

text \<open>
  The scan as a reading of the lines from the top, with at most one \<open>#EXTINF\<close> name
  waiting for its URL. While a name waits, empty lines and lines starting with \<open>#\<close>
  (further \<open>#EXTINF\<close> lines among them) are passed over, and the first other line becomes
  its URL; a name still waiting at the end of the text is dropped.
\<close>

fun pairs_from :: "string option \<Rightarrow> string list \<Rightarrow> (string \<times> string) list" where
  "pairs_from pending [] = []"
| "pairs_from None (l # ls) =
     (if startswith l ''#EXTINF'' then pairs_from (Some (extinf_name l)) ls
      else pairs_from None ls)"
| "pairs_from (Some name) (l # ls) =
     (if l = [] \<or> startswith l ''#'' then pairs_from (Some name) ls
      else (name, l) # pairs_from None ls)"

text \<open>
  The pairing in the specification's words: each \<open>#EXTINF\<close> line with the next following
  non-empty, non-comment line, none if there is no such line.
\<close>

fun spec_pairs :: "string list \<Rightarrow> (string \<times> string) list" where
  "spec_pairs [] = []"
| "spec_pairs (l # ls) =
     (if startswith l ''#EXTINF'' then
        (case dropWhile (\<lambda>x. x = [] \<or> startswith x ''#'') ls of
           [] \<Rightarrow> spec_pairs ls
         | u # _ \<Rightarrow> (extinf_name l, u) # spec_pairs ls)
      else spec_pairs ls)"


section \<open>The fetcher: \<open>fetch_text\<close> (worker.py)\<close>

text \<open>
  The HTTP session is the environment: \<open>session url attempt\<close> is what the request of the
  given attempt (counted from 0) does. It raises, or it yields a response with a status, a
  \<open>Content-Type\<close> header (empty when absent), the outcome of \<open>r.text()\<close> and the outcome of
  \<open>r.read()\<close>; a failing outcome carries \<open>str(e)\<close>. An exception of \<open>fetch_text\<close> is kept
  as the values its message is formatted from.
\<close>

type_synonym bytes = "char list"

datatype response =
    GetRaised string
  | Response int string "string + string" "string + bytes"

datatype fetch_exn =
    Cause string
  | DecodeError string int string bytes
  | HTTPError int string
  | FetchFailed nat "fetch_exn option"

datatype event = Get nat | Sleep int

definition max_attempts :: nat where
  "max_attempts = 3"

definition delay :: int where
  "delay = 2"

definition attempt_once :: "response \<Rightarrow> fetch_exn + string" where
  \<comment> \<open>the body of the outer \<open>try\<close>\<close>
  "attempt_once r =
    (case r of
       GetRaised m \<Rightarrow> Inl (Cause m)
     | Response status ctype txt rd \<Rightarrow>
         (case txt of
            Inl e \<Rightarrow>
              (case rd of
                 Inl e2 \<Rightarrow> Inl (Cause e2)
               | Inr raw \<Rightarrow> Inl (DecodeError e status ctype (take 32 raw)))
          | Inr t \<Rightarrow> if status \<noteq> 200 then Inl (HTTPError status ctype) else Inr t))"

fun fetch_attempts ::
  "(nat \<Rightarrow> response) \<Rightarrow> nat list \<Rightarrow> fetch_exn option \<Rightarrow> event list
    \<Rightarrow> event list \<times> (fetch_exn + string)" where
  \<comment> \<open>the \<open>for attempt in range(max_attempts)\<close> loop over the attempts still to make, with
      \<open>last_exc\<close> and the requests and sleeps done so far\<close>
  "fetch_attempts get [] last_exc tr = (tr, Inl (FetchFailed max_attempts last_exc))"
| "fetch_attempts get (attempt # rest) last_exc tr =
     (case attempt_once (get attempt) of
        Inr txt \<Rightarrow> (tr @ [Get attempt], Inr txt)
      | Inl e \<Rightarrow>
          fetch_attempts get rest (Some e)
            (tr @ [Get attempt, Sleep (delay * (int attempt + 1))]))"

definition fetch_text :: "(string \<Rightarrow> nat \<Rightarrow> response) \<Rightarrow> string \<Rightarrow> event list \<times> (fetch_exn + string)" where
  "fetch_text session url = fetch_attempts (session url) [0..<max_attempts] None []"

section \<open>The monitor: \<open>Monitor.run_once\<close> (worker.py)\<close>

type_synonym channel = "int \<times> string \<times> string"

type_synonym result_row = "int \<times> status \<times> string \<times> string option \<times> rat option"

record sweep_result =
  r_id :: int
  r_name :: string
  r_url :: string
  r_result :: status
  r_notes :: string
  r_throughput :: "string option"
  r_startup :: "rat option"

text \<open>
  Modelled from the spec: the storage module \<open>db.py\<close>, which \<open>worker.py\<close> imports
  \<open>list_channels\<close> and \<open>insert_result\<close> from, is not among the sources. The specification
  gives the channel directory as a list of \<open>(id, name, url)\<close> and \<open>insert_result\<close> as one
  stored row per call.
\<close>

record db =
  channels :: "channel list"
  results :: "result_row list"

definition list_channels :: "db \<Rightarrow> channel list" where
  "list_channels d = channels d"

definition insert_result :: "db \<Rightarrow> result_row \<Rightarrow> db" where
  "insert_result d row = d\<lparr>results := results d @ [row]\<rparr>"

fun run_once_loop ::
  "(nat \<Rightarrow> probe_env) \<Rightarrow> nat \<Rightarrow> channel list \<Rightarrow> db \<Rightarrow> sweep_result list
    \<Rightarrow> exn + (sweep_result list \<times> db)" where
  \<comment> \<open>the \<open>for c in channels\<close> loop; \<open>world k\<close> is the environment of the \<open>k\<close>-th probe\<close>
  "run_once_loop world k [] d res = Inr (res, d)"
| "run_once_loop world k ((cid, name, url) # cs) d res =
     (case check_ts (world k) url 15 of
        Inl e \<Rightarrow> Inl e
      | Inr (result, notes, throughput, startup) \<Rightarrow>
          run_once_loop world (k + 1) cs
            (insert_result d (cid, result, notes, throughput, startup))
            (res @ [\<lparr>r_id = cid, r_name = name, r_url = url, r_result = result,
                      r_notes = notes, r_throughput = throughput, r_startup = startup\<rparr>]))"

definition run_once :: "(nat \<Rightarrow> probe_env) \<Rightarrow> db \<Rightarrow> exn + (sweep_result list \<times> db)" where
  "run_once world d = run_once_loop world 0 (list_channels d) d []"

section \<open>Numbers: \<open>int()\<close>, \<open>round(x, 2)\<close> and \<open>.2f\<close>\<close>

definition py_int :: "rat \<Rightarrow> int" where
  \<comment> \<open>\<open>int(x)\<close> truncates towards zero\<close>
  "py_int x = (if 0 \<le> x then \<lfloor>x\<rfloor> else \<lceil>x\<rceil>)"

definition round_half_even :: "rat \<Rightarrow> int" where
  "round_half_even x =
    (let f = \<lfloor>x\<rfloor>; d = x - of_int f
     in if d < 1 / 2 then f else if 1 / 2 < d then f + 1 else if even f then f else f + 1)"

definition py_round2 :: "rat \<Rightarrow> rat" where
  \<comment> \<open>\<open>round(x, 2)\<close>, on exact values\<close>
  "py_round2 x = of_int (round_half_even (x * 100)) / 100"

definition digit_char :: "nat \<Rightarrow> char" where
  "digit_char d = ''0123456789'' ! (d mod 10)"

fun digits :: "nat \<Rightarrow> string" where
  \<comment> \<open>\<open>str(n)\<close> for a natural number\<close>
  "digits n = (if n < 10 then [digit_char n] else digits (n div 10) @ [digit_char n])"

declare digits.simps [simp del]

definition fmt_2f :: "rat \<Rightarrow> string" where
  \<comment> \<open>\<open>f"{x:.2f}"\<close>, on exact values\<close>
  "fmt_2f x =
    (let n = nat (round_half_even (\<bar>x\<bar> * 100))
     in (if x < 0 then ''-'' else '''') @ digits (n div 100) @ ''.''
        @ [digit_char (n div 10), digit_char n])"

section \<open>The channel record and \<open>probe_channel\<close> (run_local_test.py)\<close>

text \<open>
  One entry of \<open>channels_json\<close>. The \<open>issues\<close> dictionary is the pair of its
  \<open>buffering\<close> and \<open>errors\<close> counters. \<open>c_disconnects\<close> and \<open>c_buffering_events\<close>
  are the contents of the two lists the entry refers to. A window of \<open>probe_channel\<close>
  reads and writes the one entry \<open>channels_json[idx]\<close> and these two lists, and the
  windows of a run follow one another, so a window is a function of that entry. (The
  carry-over below hands one list object to every channel of the same name, so between
  two windows of such channels a list may have grown; a window then starts from the
  contents it finds.)

  Every \<open>json.dump\<close> of the run writes the whole of \<open>channels_json\<close> and changes nothing
  in it; the writes are left out. So is the progress task of continuous mode: it assigns
  \<open>tested_seconds\<close>, \<open>resolution\<close> and \<open>details\<close> only, all three assigned again by the
  final block.
\<close>

record chan =
  c_name :: string
  c_status :: status
  c_details :: string
  c_url :: string
  c_resolution :: string
  c_test_duration :: string
  c_tested_seconds :: int
  c_issues :: "int \<times> int"
  c_disconnects_count :: int
  c_disconnects :: "int list"
  c_buffering_total_seconds :: rat
  c_buffering_events :: "rat list"

text \<open>The dictionary that \<open>probe_channel\<close> returns.\<close>

record probe_return =
  p_id :: int
  p_name :: string
  p_url :: string
  p_result :: status
  p_notes :: string
  p_issues :: "int \<times> int"

text \<open>
  What one measurement window observes. \<open>t_begin\<close> is the reading \<open>start = time.time()\<close>
  and \<open>t_final\<close> the reading taken for the final \<open>tested_seconds\<close>. In periodic mode each
  pass through the \<open>while True\<close> loop reads the clock at the top (\<open>t_top\<close>), probes once
  (\<open>probe\<close>), reads the clock for a disconnect's timestamp (\<open>t_disc\<close>, read only after an
  error) and for the running \<open>tested_seconds\<close> (\<open>t_upd\<close>). In continuous mode there is the
  first short probe (\<open>probe0\<close>), the start of the long-running process (\<open>spawn\<close> is
  \<open>Some\<close> message when \<open>create_subprocess_exec\<close> raises) and the decoded lines that
  \<open>read_stdout\<close> and \<open>read_stderr\<close> get to read.
\<close>

record round =
  t_top :: rat
  probe :: probe_env
  t_disc :: rat
  t_upd :: rat

record window_env =
  t_begin :: rat
  rounds :: "round list"
  t_final :: rat
  probe0 :: probe_env
  spawn :: "string option"
  stdout_lines :: "string list"
  stderr_lines :: "string list"

datatype 'a outcome = Returned 'a | Raised exn | Unfinished

text \<open>The local variables of \<open>probe_channel\<close> together with the record being updated.\<close>

record locals =
  buffer_count :: int
  error_count :: int
  last_notes :: string
  last_resolution :: string
  rec :: chan

definition probe_or_error :: "probe_env \<Rightarrow> string \<Rightarrow> int \<Rightarrow> probe_result" where
  \<comment> \<open>\<open>try: ... = await check_ts(url, per_check_timeout=...)\<close> with its
      \<open>except Exception as e\<close>, which puts \<open>'error', str(e), '', None\<close> in its place\<close>
  "probe_or_error env url per_check_timeout =
    (case check_ts env url per_check_timeout of
       Inr p \<Rightarrow> p
     | Inl e \<Rightarrow> (Error, exn_str e, Some '''', None))"

definition note_probe :: "string \<Rightarrow> string option \<Rightarrow> locals \<Rightarrow> locals" where
  \<comment> \<open>\<open>last_notes = notes\<close> and \<open>if resolution: last_resolution = resolution\<close>\<close>
  "note_probe notes resolution l =
    (case resolution of
       Some s \<Rightarrow> if s \<noteq> [] then l\<lparr>last_notes := notes, last_resolution := s\<rparr>
                 else l\<lparr>last_notes := notes\<rparr>
     | None \<Rightarrow> l\<lparr>last_notes := notes\<rparr>)"

definition on_buffering :: "rat option \<Rightarrow> locals \<Rightarrow> locals" where
  \<comment> \<open>the block under \<open>if r == 'buffering'\<close>\<close>
  "on_buffering single_probe_time l =
    (let buff_dur = (case single_probe_time of Some t \<Rightarrow> if t \<noteq> 0 then t else 0 | None \<Rightarrow> 0)
     in l\<lparr>buffer_count := buffer_count l + 1,
          rec := (rec l)\<lparr>
            c_buffering_events := c_buffering_events (rec l) @ [py_round2 buff_dur],
            c_buffering_total_seconds := c_buffering_total_seconds (rec l) + buff_dur\<rparr>\<rparr>)"

definition on_error :: "rat \<Rightarrow> locals \<Rightarrow> locals" where
  \<comment> \<open>the block under \<open>if r == 'error'\<close>; \<open>now\<close> is the reading of \<open>time.time()\<close>\<close>
  "on_error now l =
    l\<lparr>error_count := error_count l + 1,
      rec := (rec l)\<lparr>
        c_disconnects_count := c_disconnects_count (rec l) + 1,
        c_disconnects := c_disconnects (rec l) @ [py_int now]\<rparr>\<rparr>"

definition update_running :: "rat option \<Rightarrow> rat \<Rightarrow> locals \<Rightarrow> locals" where
  \<comment> \<open>the block under \<open># Update running fields under lock\<close>\<close>
  "update_running single_probe_time tested l =
    l\<lparr>rec := (rec l)\<lparr>
        c_status := Testing,
        c_details := last_notes l,
        c_resolution := last_resolution l,
        c_test_duration :=
          (case single_probe_time of
             Some t \<Rightarrow> if t \<noteq> 0 then fmt_2f t @ ''s'' else ''''
           | None \<Rightarrow> ''''),
        c_tested_seconds := py_int tested,
        c_issues := (buffer_count l, error_count l)\<rparr>\<rparr>"

definition periodic_round :: "string \<Rightarrow> int \<Rightarrow> rat \<Rightarrow> round \<Rightarrow> locals \<Rightarrow> locals" where
  \<comment> \<open>one pass through the body of the \<open>while True\<close> loop, after the test of \<open>elapsed\<close>\<close>
  "periodic_round url duration_seconds start r l =
    (let elapsed = t_top r - start;
         remaining = max 1 (py_int (of_int duration_seconds - elapsed));
         (res, notes, resolution, single_probe_time) =
            probe_or_error (probe r) url (min 10 remaining);
         l1 = note_probe notes resolution l;
         l2 = (if res = Buffering then on_buffering single_probe_time l1 else l1);
         l3 = (if res = Error then on_error (t_disc r) l2 else l2)
     in update_running single_probe_time (t_upd r - start) l3)"

fun periodic_loop :: "string \<Rightarrow> int \<Rightarrow> rat \<Rightarrow> round list \<Rightarrow> locals \<Rightarrow> locals option" where
  \<comment> \<open>the \<open>while True\<close> loop over the passes observed; it ends at the first clock reading
      with \<open>elapsed >= duration_seconds\<close>, and is unfinished when no such reading is among
      the observations\<close>
  "periodic_loop url duration_seconds start [] l = None"
| "periodic_loop url duration_seconds start (r # rs) l =
     (if of_int duration_seconds \<le> t_top r - start then Some l
      else periodic_loop url duration_seconds start rs (periodic_round url duration_seconds start r l))"

definition finalize_periodic :: "rat \<Rightarrow> rat \<Rightarrow> locals \<Rightarrow> chan" where
  \<comment> \<open>the block under \<open># finalize\<close>\<close>
  "finalize_periodic start now l =
    (let final_status = (if buffer_count l = 0 \<and> error_count l = 0 then Pass else Issue)
     in (rec l)\<lparr>
          c_status := final_status,
          c_details := last_notes l,
          c_resolution := last_resolution l,
          c_test_duration := c_test_duration (rec l),
          c_tested_seconds := py_int (now - start),
          c_issues := (buffer_count l, error_count l),
          c_disconnects_count := c_disconnects_count (rec l),
          c_buffering_total_seconds := py_round2 (c_buffering_total_seconds (rec l))\<rparr>)"

definition read_stdout_line :: "string \<Rightarrow> string option \<times> string option \<times> string
    \<Rightarrow> string option \<times> string option \<times> string" where
  \<comment> \<open>one pass of \<open>read_stdout\<close>, on \<open>(last_width, last_height, last_resolution)\<close>\<close>
  "read_stdout_line line st =
    (let (last_width, last_height, last_res) = st;
         text = strip line;
         w = (if contains ''width='' text then
                (case re_search_group ''width='' is_digit text of Some g \<Rightarrow> Some g | None \<Rightarrow> last_width)
              else last_width);
         h = (if contains ''height='' text then
                (case re_search_group ''height='' is_digit text of Some g \<Rightarrow> Some g | None \<Rightarrow> last_height)
              else last_height)
     in case (w, h) of
          (Some a, Some b) \<Rightarrow> (w, h, a @ ''x'' @ b)
        | _ \<Rightarrow> (w, h, last_res))"

definition read_stderr_line :: "string \<Rightarrow> locals \<Rightarrow> locals" where
  \<comment> \<open>one pass of \<open>read_stderr\<close>\<close>
  "read_stderr_line line l =
    (let text = strip line;
         l1 = (if contains ''error'' (lower text) \<or> contains ''failed'' (lower text)
               then l\<lparr>error_count := error_count l + 1,
                      last_notes := strip (last_notes l @ '' '' @ text)\<rparr>
               else l)
     in if contains ''buffer'' (lower text)
        then l1\<lparr>buffer_count := buffer_count l1 + 1,
                last_notes := strip (last_notes l1 @ '' '' @ text)\<rparr>
        else l1)"

definition finalize_continuous :: "rat \<Rightarrow> rat \<Rightarrow> locals \<Rightarrow> chan" where
  \<comment> \<open>the block under \<open># update final stats\<close>\<close>
  "finalize_continuous start now l =
    (rec l)\<lparr>
      c_status := (if buffer_count l = 0 \<and> error_count l = 0 then Pass else Issue),
      c_details := last_notes l,
      c_resolution := last_resolution l,
      c_test_duration := '''',
      c_tested_seconds := py_int (now - start),
      c_issues := (buffer_count l, error_count l),
      c_disconnects_count := c_disconnects_count (rec l),
      c_buffering_total_seconds := py_round2 (c_buffering_total_seconds (rec l))\<rparr>"

definition continuous_start :: "window_env \<Rightarrow> string \<Rightarrow> int \<Rightarrow> locals \<Rightarrow> locals" where
  \<comment> \<open>the first short probe of continuous mode, which seeds the notes and the resolution\<close>
  "continuous_start env url duration_seconds l =
    (case check_ts (probe0 env) url (min 10 duration_seconds) of
       Inr (r0, notes0, res0, t0) \<Rightarrow>
         (let l1 = l\<lparr>last_notes := notes0\<rparr>
          in case res0 of
               Some s \<Rightarrow> if s \<noteq> [] then l1\<lparr>last_resolution := s\<rparr> else l1
             | None \<Rightarrow> l1)
     | Inl e \<Rightarrow> l\<lparr>last_notes := '''', last_resolution := ''''\<rparr>)"

definition probe_channel ::
  "window_env \<Rightarrow> bool \<Rightarrow> int \<Rightarrow> int \<times> string \<times> string \<Rightarrow> chan \<Rightarrow> (chan \<times> probe_return) outcome" where
  \<comment> \<open>\<open>probe_channel(idx, c)\<close> on the record \<open>channels_json[idx]\<close>, the only one it touches\<close>
  "probe_channel env continuous_mode duration_seconds c r =
    (let (cid, name, url) = c;
         start = t_begin env;
         l0 = \<lparr>buffer_count = 0, error_count = 0, last_notes = '''', last_resolution = '''',
               rec = r\<lparr>c_status := Testing\<rparr>\<rparr>
     in if continuous_mode then
          (let l1 = continuous_start env url duration_seconds l0
           in case spawn env of
                Some m \<Rightarrow> Raised (Exception m)
              | None \<Rightarrow>
                 (let (w, h, res) = fold read_stdout_line (stdout_lines env) (None, None, last_resolution l1);
                      l2 = fold read_stderr_line (stderr_lines env) (l1\<lparr>last_resolution := res\<rparr>);
                      r' = finalize_continuous start (t_final env) l2
                  in Returned (r', \<lparr>p_id = cid, p_name = name, p_url = url, p_result = c_status r',
                                     p_notes = last_notes l2, p_issues = c_issues r'\<rparr>)))
        else
          (case periodic_loop url duration_seconds start (rounds env) l0 of
             None \<Rightarrow> Unfinished
           | Some l \<Rightarrow>
               (let r' = finalize_periodic start (t_final env) l
                in Returned (r', \<lparr>p_id = cid, p_name = name, p_url = url, p_result = c_status r',
                                   p_notes = last_notes l, p_issues = c_issues r'\<rparr>))))"

definition round_result :: "string \<Rightarrow> int \<Rightarrow> rat \<Rightarrow> round \<Rightarrow> status" where
  \<comment> \<open>the status that the probe of one pass reports\<close>
  "round_result url duration_seconds start r =
    fst (probe_or_error (probe r) url
          (min 10 (max 1 (py_int (of_int duration_seconds - (t_top r - start))))))"

definition window_rounds :: "int \<Rightarrow> rat \<Rightarrow> round list \<Rightarrow> round list" where
  \<comment> \<open>the passes made before the first clock reading with \<open>elapsed >= duration_seconds\<close>\<close>
  "window_rounds duration_seconds start rs =
    takeWhile (\<lambda>r. t_top r - start < of_int duration_seconds) rs"

definition buffer_line :: "string \<Rightarrow> bool" where
  \<comment> \<open>a diagnostic line that \<open>read_stderr\<close> counts as buffering\<close>
  "buffer_line line = contains ''buffer'' (lower (strip line))"

definition error_line :: "string \<Rightarrow> bool" where
  \<comment> \<open>a diagnostic line that \<open>read_stderr\<close> counts as an error\<close>
  "error_line line =
    (contains ''error'' (lower (strip line)) \<or> contains ''failed'' (lower (strip line)))"

definition returned :: "'a outcome \<Rightarrow> 'a option" where
  "returned out = (case out of Returned x \<Rightarrow> Some x | Raised e \<Rightarrow> None | Unfinished \<Rightarrow> None)"

section \<open>Carry-over between iterations: \<open>prepare_and_run\<close> (run_local_test.py)\<close>

text \<open>
  The part of \<open>prepare_and_run\<close> that builds \<open>channels_json\<close>. \<open>results_file\<close> is the
  list under \<open>channels\<close> of the \<open>results.json\<close> left by the run before, \<open>None\<close> when the
  file is missing or cannot be read. \<open>previous_counts\<close> is the dictionary from a channel
  name to the four carried values; a later entry of the file replaces an earlier one of the
  same name.
\<close>

record carried =
  k_buffering_events :: "rat list"
  k_disconnects :: "int list"
  k_disconnects_count :: int
  k_buffering_total_seconds :: rat

definition load_previous_counts :: "int \<Rightarrow> chan list option \<Rightarrow> (string \<rightharpoonup> carried)" where
  "load_previous_counts current_iteration results_file =
    (if 1 < current_iteration then
       (case results_file of
          Some prev_channels \<Rightarrow>
            fold (\<lambda>ch previous_counts. previous_counts(c_name ch \<mapsto>
                    \<lparr>k_buffering_events = c_buffering_events ch,
                     k_disconnects = c_disconnects ch,
                     k_disconnects_count = c_disconnects_count ch,
                     k_buffering_total_seconds = c_buffering_total_seconds ch\<rparr>))
              prev_channels Map.empty
        | None \<Rightarrow> Map.empty)
     else Map.empty)"

definition new_channel_json :: "(string \<rightharpoonup> carried) \<Rightarrow> int \<times> string \<times> string \<Rightarrow> chan" where
  \<comment> \<open>the dictionary appended for one channel \<open>c\<close>, with \<open>prev = previous_counts.get(c[1], {})\<close>\<close>
  "new_channel_json previous_counts c =
    (let (cid, name, url) = c; prev = previous_counts name
     in \<lparr>c_name = name,
         c_status = Pending,
         c_details = '''',
         c_url = url,
         c_resolution = '''',
         c_test_duration = '''',
         c_tested_seconds = 0,
         c_issues = (0, 0),
         c_disconnects_count = (case prev of Some p \<Rightarrow> k_disconnects_count p | None \<Rightarrow> 0),
         c_disconnects = (case prev of Some p \<Rightarrow> k_disconnects p | None \<Rightarrow> []),
         c_buffering_total_seconds = (case prev of Some p \<Rightarrow> k_buffering_total_seconds p | None \<Rightarrow> 0),
         c_buffering_events = (case prev of Some p \<Rightarrow> k_buffering_events p | None \<Rightarrow> [])\<rparr>)"

definition make_channels_json ::
  "int \<Rightarrow> chan list option \<Rightarrow> (int \<times> string \<times> string) list \<Rightarrow> chan list" where
  "make_channels_json current_iteration results_file channels_to_check =
    map (new_channel_json (load_previous_counts current_iteration results_file)) channels_to_check"

section \<open>Example observations\<close>

definition refused_probe :: "rat \<Rightarrow> probe_env" where
  \<comment> \<open>an inspection that exits with status 1 after \<open>dt\<close> seconds\<close>
  "refused_probe dt =
    \<lparr>run = (\<lambda>_. Completed 1 '''' ''Connection refused''), time_start = 0, time_end = dt\<rparr>"

definition quiet_probe :: probe_env where
  \<comment> \<open>an inspection that exits with status 0 and an empty report after one second\<close>
  "quiet_probe = \<lparr>run = (\<lambda>_. Completed 0 '''' ''''), time_start = 0, time_end = 1\<rparr>"

definition failed_probe :: probe_env where
  \<comment> \<open>an inspection that could not be started: \<open>subprocess.run\<close> raises an \<open>OSError\<close>\<close>
  "failed_probe =
    \<lparr>run = (\<lambda>_. RunRaised ''[Errno 24] Too many open files''), time_start = 0, time_end = 0\<rparr>"

definition timeout_expired :: "string list \<Rightarrow> string" where
  \<comment> \<open>\<open>str(e)\<close> of the \<open>TimeoutExpired\<close> that \<open>subprocess.run(cmd, timeout=15)\<close> raises, for
      arguments that \<open>repr\<close> shows between single quotes as they are\<close>
  "timeout_expired cmd =
    ''Command '' @ [CHR 0x27] @ ''['' @
    concat (map (\<lambda>(i, a). (if i = 0 then '''' else '', '') @ [CHR 0x27] @ a @ [CHR 0x27])
              (zip [0..<length cmd] cmd))
    @ '']'' @ [CHR 0x27] @ '' timed out after 15 seconds''"

definition hung_probe :: probe_env where
  \<comment> \<open>an inspection that does not end: \<open>subprocess.run\<close> gives up after its 15 seconds\<close>
  "hung_probe = \<lparr>run = (\<lambda>cmd. RunRaised (timeout_expired cmd)), time_start = 0, time_end = 15\<rparr>"

definition slow_probe :: probe_env where
  \<comment> \<open>an inspection that exits with status 0 and an empty report after two seconds\<close>
  "slow_probe = \<lparr>run = (\<lambda>_. Completed 0 '''' ''''), time_start = 0, time_end = 2\<rparr>"

definition round_at :: "rat \<Rightarrow> probe_env \<Rightarrow> round" where
  "round_at t p = \<lparr>t_top = t, probe = p, t_disc = t + 1, t_upd = t + 1\<rparr>"

definition periodic_env :: "round list \<Rightarrow> rat \<Rightarrow> window_env" where
  "periodic_env rs t =
    \<lparr>t_begin = 0, rounds = rs, t_final = t, probe0 = quiet_probe, spawn = None,
     stdout_lines = [], stderr_lines = []\<rparr>"

definition continuous_env :: "string list \<Rightarrow> string list \<Rightarrow> rat \<Rightarrow> window_env" where
  "continuous_env out err t =
    \<lparr>t_begin = 0, rounds = [], t_final = t, probe0 = quiet_probe, spawn = None,
     stdout_lines = out, stderr_lines = err\<rparr>"

section \<open>Properties of the probe\<close>

lemmas check_ts_defs =
  check_ts_def wait_for_def check_inner_def check_body_def classify_def parse_duration_def
  exn_str_def Let_def

lemma check_ts_returns: "\<exists>r. check_ts env url t = Inr r"
  by (simp add: check_ts_def wait_for_def check_inner_def split: sum.split exn.split)

lemma check_ts_positive_timeout:
  "0 < t \<Longrightarrow> check_ts env url t = check_inner env url"
  by (simp add: check_ts_def wait_for_def check_inner_def split: sum.split)

lemma check_ts_no_timeout:
  "t \<le> 0 \<Longrightarrow> check_ts env url t = Inr (Error, ''timeout'', None, None)"
  by (simp add: check_ts_def wait_for_def)




text \<open>
  Claim C3 at two failing inputs. \<open>check_ts\<close> raises nothing (\<open>check_ts_returns\<close>) and
  turns every exception into \<open>error\<close> with the exception's message, but a call that
  outlasts a positive timeout is not cut short. With timeout 1, an inspection that ends
  after 2 seconds with exit status 0 gives \<open>pass\<close> and a probe duration of 2, not
  \<open>error\<close> with notes \<open>timeout\<close>. With timeout 10, an inspection that does not end is
  stopped by the 15 seconds of \<open>subprocess.run\<close>; the outcome is \<open>error\<close> with the
  message of \<open>TimeoutExpired\<close> as notes, which is not \<open>timeout\<close>.
\<close>

theorem check_ts_timeout_missed:
  "check_ts slow_probe ''http://a'' 1 = Inr (Pass, '''', Some '''', Some 2)
   \<and> (1 :: rat) < time_end slow_probe - time_start slow_probe
   \<and> check_ts hung_probe ''http://a'' 10
       = Inr (Error, timeout_expired (ffprobe_cmd ''http://a''), None, None)
   \<and> timeout_expired (ffprobe_cmd ''http://a'') \<noteq> ''timeout''"
proof -
  have a: "check_ts slow_probe ''http://a'' 1 = Inr (Pass, '''', Some '''', Some 2)"
    by (simp add: check_ts_defs slow_probe_def strip_def)
  have b: "(1 :: rat) < time_end slow_probe - time_start slow_probe"
    by (simp add: slow_probe_def)
  have c: "check_ts hung_probe ''http://a'' 10
       = Inr (Error, timeout_expired (ffprobe_cmd ''http://a''), None, None)"
    by (simp add: check_ts_defs hung_probe_def)
  have d: "timeout_expired (ffprobe_cmd ''http://a'') \<noteq> ''timeout''"
    by (simp add: timeout_expired_def)
  from a b c d show ?thesis by (intro conjI)
qed

section \<open>Properties of the playlist parser\<close>

lemma scan_url_stops:
  "scan_url lines k < length lines \<Longrightarrow>
     lines ! scan_url lines k \<noteq> [] \<and> \<not> startswith (lines ! scan_url lines k) ''#''"
proof (induction lines k rule: scan_url.induct)
  case (1 lines j)
  show ?case
  proof (cases "j < length lines \<and> (lines ! j = [] \<or> startswith (lines ! j) ''#'')")
    case True
    then have eq: "scan_url lines j = scan_url lines (j + 1)"
      by (subst scan_url.simps) simp
    with 1 True show ?thesis by simp
  next
    case False
    then have eq: "scan_url lines j = j"
      by (subst scan_url.simps) auto
    with 1 False show ?thesis by auto
  qed
qed

lemma pairs_from_pending:
  "pairs_from (Some n) (drop k lines) =
     (if scan_url lines k < length lines
      then (n, lines ! scan_url lines k) # pairs_from None (drop (scan_url lines k + 1) lines)
      else [])"
proof (induction lines k rule: scan_url.induct)
  case (1 lines j)
  show ?case
  proof (cases "j < length lines")
    case inrange: True
    then have d: "drop j lines = lines ! j # drop (j + 1) lines"
      by (simp add: Cons_nth_drop_Suc)
    show ?thesis
    proof (cases "lines ! j = [] \<or> startswith (lines ! j) ''#''")
      case True
      with inrange have eq: "scan_url lines j = scan_url lines (j + 1)"
        by (subst scan_url.simps) simp
      from True have "pairs_from (Some n) (drop j lines) = pairs_from (Some n) (drop (j + 1) lines)"
        by (simp add: d)
      also have "\<dots> = (if scan_url lines (j + 1) < length lines
          then (n, lines ! scan_url lines (j + 1)) # pairs_from None (drop (scan_url lines (j + 1) + 1) lines)
          else [])"
        using 1 inrange True by simp
      finally show ?thesis by (simp only: eq)
    next
      case False
      with inrange have eq: "scan_url lines j = j"
        by (subst scan_url.simps) simp
      from False inrange show ?thesis by (simp add: d eq)
    qed
  next
    case False
    then have eq: "scan_url lines j = j"
      by (subst scan_url.simps) simp
    from False show ?thesis by (simp add: eq)
  qed
qed

lemma parse_loop_pairs:
  "parse_loop lines i items = items @ pairs_from None (drop i lines)"
proof (induction lines i items rule: parse_loop.induct)
  case (1 lines i items)
  show ?case
  proof (cases "i < length lines")
    case inrange: True
    then have d: "drop i lines = lines ! i # drop (i + 1) lines"
      by (simp add: Cons_nth_drop_Suc)
    show ?thesis
    proof (cases "startswith (lines ! i) ''#EXTINF''")
      case True
      let ?j = "scan_url lines (i + 1)"
      let ?name = "extinf_name (lines ! i)"
      let ?url = "if ?j < length lines then Some (lines ! ?j) else None"
      let ?items = "case ?url of Some u \<Rightarrow> if u \<noteq> [] then items @ [(?name, u)] else items
                     | None \<Rightarrow> items"
      have step: "parse_loop lines i items = parse_loop lines (?j + 1) ?items"
        using inrange True by (subst parse_loop.simps) (simp add: Let_def)
      have ih: "parse_loop lines (?j + 1) ?items = ?items @ pairs_from None (drop (?j + 1) lines)"
        using 1(1) [OF inrange True refl refl refl] .
      have "pairs_from None (drop i lines) = pairs_from (Some ?name) (drop (i + 1) lines)"
        using True by (simp add: d)
      also have "\<dots> = (if ?j < length lines
            then (?name, lines ! ?j) # pairs_from None (drop (?j + 1) lines) else [])"
        by (rule pairs_from_pending)
      finally have rhs: "pairs_from None (drop i lines) =
          (if ?j < length lines
            then (?name, lines ! ?j) # pairs_from None (drop (?j + 1) lines) else [])" .
      show ?thesis
      proof (cases "?j < length lines")
        case True
        with scan_url_stops have "lines ! ?j \<noteq> []" by blast
        with True step ih rhs show ?thesis by simp
      next
        case False
        with step ih rhs show ?thesis by simp
      qed
    next
      case False
      have step: "parse_loop lines i items = parse_loop lines (i + 1) items"
        using inrange False by (subst parse_loop.simps) simp
      from 1(2) [OF inrange False] step False show ?thesis by (simp add: d)
    qed
  next
    case False
    then show ?thesis by (subst parse_loop.simps) simp
  qed
qed

lemma pairs_from_waiting:
  assumes "\<forall>x \<in> set skipped. x = [] \<or> startswith x ''#''"
  shows "pairs_from (Some n) (skipped @ ls) = pairs_from (Some n) ls"
  using assms by (induction skipped) auto

text \<open>
  Claim C10, as amended. \<open>parse_m3u\<close> runs the scan over the stripped lines of the text,
  from the top with no item. A line that does not start with \<open>#EXTINF\<close> is passed over.
  An \<open>#EXTINF\<close> line that the scan reaches is paired with the next following non-empty
  line that does not start with \<open>#\<close>, and the scan resumes after that URL line: the lines in
  between, further \<open>#EXTINF\<close> lines among them, contribute no pair. The name is the text
  after the first comma of the \<open>#EXTINF\<close> line, or \<open>unknown\<close> without a comma. An
  \<open>#EXTINF\<close> line with no following non-empty non-comment line contributes no pair. The
  pairs are in source order.
\<close>

theorem parse_m3u_scan:
  "parse_m3u text = parse_loop (map strip (splitlines text)) 0 []
   \<and> parse_loop [] 0 [] = []
   \<and> (\<not> startswith l ''#EXTINF'' \<longrightarrow> parse_loop (l # rest) 0 [] = parse_loop rest 0 [])
   \<and> (startswith l ''#EXTINF'' \<and> (\<forall>x \<in> set skipped. x = [] \<or> startswith x ''#'')
        \<and> u \<noteq> [] \<and> \<not> startswith u ''#''
       \<longrightarrow> parse_loop (l # skipped @ u # rest) 0 [] = (extinf_name l, u) # parse_loop rest 0 [])
   \<and> (startswith l ''#EXTINF'' \<and> (\<forall>x \<in> set skipped. x = [] \<or> startswith x ''#'')
       \<longrightarrow> parse_loop (l # skipped) 0 [] = [])"
proof -
  have 1: "parse_m3u text = parse_loop (map strip (splitlines text)) 0 []"
    by (simp add: parse_m3u_def)
  have 2: "parse_loop [] 0 [] = []"
    by (simp add: parse_loop_pairs)
  have 3: "\<not> startswith l ''#EXTINF'' \<longrightarrow> parse_loop (l # rest) 0 [] = parse_loop rest 0 []"
    by (simp add: parse_loop_pairs)
  have 4: "startswith l ''#EXTINF'' \<and> (\<forall>x \<in> set skipped. x = [] \<or> startswith x ''#'')
        \<and> u \<noteq> [] \<and> \<not> startswith u ''#''
       \<longrightarrow> parse_loop (l # skipped @ u # rest) 0 [] = (extinf_name l, u) # parse_loop rest 0 []"
    by (simp add: parse_loop_pairs pairs_from_waiting)
  have 5: "startswith l ''#EXTINF'' \<and> (\<forall>x \<in> set skipped. x = [] \<or> startswith x ''#'')
       \<longrightarrow> parse_loop (l # skipped) 0 [] = []"
    using pairs_from_waiting [of skipped "extinf_name l" "[]"]
    by (simp add: parse_loop_pairs)
  from 1 2 3 4 5 show ?thesis by (intro conjI)
qed

theorem parse_m3u_scan_witness:
  "parse_loop [''#EXTM3U'', ''#EXTINF:-1,A'', ''#EXTVLCOPT:x'', '''', ''http://u'', ''#EXTINF:-1''] 0 []
     = [(''A'', ''http://u'')]
   \<and> parse_m3u (''#EXTINF:-1,A'' @ [CHR 0x0A] @ ''http://u'' @ [CHR 0x0A] @ ''#EXTINF:-1'' @ [CHR 0x0A]
      @ [CHR 0x0A] @ '' http://v '' @ [CHR 0x0A] @ ''#EXTINF:-1,C'')
     = [(''A'', ''http://u''), (''unknown'', ''http://v'')]"
proof -
  have a: "parse_loop [''#EXTM3U'', ''#EXTINF:-1,A'', ''#EXTVLCOPT:x'', '''', ''http://u'', ''#EXTINF:-1''] 0 []
      = parse_loop [''#EXTINF:-1,A'', ''#EXTVLCOPT:x'', '''', ''http://u'', ''#EXTINF:-1''] 0 []"
    using parse_m3u_scan [of "''''" "''#EXTM3U''"
        "[''#EXTINF:-1,A'', ''#EXTVLCOPT:x'', '''', ''http://u'', ''#EXTINF:-1'']" "[]" "''''"]
    by simp
  have b: "parse_loop [''#EXTINF:-1,A'', ''#EXTVLCOPT:x'', '''', ''http://u'', ''#EXTINF:-1''] 0 []
      = (''A'', ''http://u'') # parse_loop [''#EXTINF:-1''] 0 []"
    using parse_m3u_scan [of "''''" "''#EXTINF:-1,A''" "[''#EXTINF:-1'']"
        "[''#EXTVLCOPT:x'', '''']" "''http://u''"]
    by (simp add: extinf_name_def)
  have c: "parse_loop [''#EXTINF:-1''] 0 [] = []"
    using parse_m3u_scan [of "''''" "''#EXTINF:-1''" "[]" "[]" "''''"]
    by simp
  have d: "parse_loop (map strip (splitlines
      (''#EXTINF:-1,A'' @ [CHR 0x0A] @ ''http://u'' @ [CHR 0x0A] @ ''#EXTINF:-1'' @ [CHR 0x0A]
      @ [CHR 0x0A] @ '' http://v '' @ [CHR 0x0A] @ ''#EXTINF:-1,C''))) 0 []
    = [(''A'', ''http://u''), (''unknown'', ''http://v'')]"
    by code_simp
  from parse_m3u_scan [of "''#EXTINF:-1,A'' @ [CHR 0x0A] @ ''http://u'' @ [CHR 0x0A] @ ''#EXTINF:-1'' @ [CHR 0x0A]
      @ [CHR 0x0A] @ '' http://v '' @ [CHR 0x0A] @ ''#EXTINF:-1,C''" "''''" "[]" "[]" "''''"] d
  have e: "parse_m3u (''#EXTINF:-1,A'' @ [CHR 0x0A] @ ''http://u'' @ [CHR 0x0A] @ ''#EXTINF:-1'' @ [CHR 0x0A]
      @ [CHR 0x0A] @ '' http://v '' @ [CHR 0x0A] @ ''#EXTINF:-1,C'')
     = [(''A'', ''http://u''), (''unknown'', ''http://v'')]"
    by (simp only:)
  from a b c have "parse_loop [''#EXTM3U'', ''#EXTINF:-1,A'', ''#EXTVLCOPT:x'', '''', ''http://u'', ''#EXTINF:-1''] 0 []
     = [(''A'', ''http://u'')]"
    by (simp only:)
  with e show ?thesis by (intro conjI)
qed

text \<open>
  Claim C10 as stated fails when two \<open>#EXTINF\<close> lines precede one URL: the second
  \<open>#EXTINF\<close> line has a following non-empty non-comment line, and yet gets no pair.
\<close>

theorem parse_m3u_counterexample:
  "parse_m3u (''#EXTINF:-1,A'' @ [CHR 0x0A] @ ''#EXTINF:-1,B'' @ [CHR 0x0A] @ ''http://u'')
     = [(''A'', ''http://u'')]
   \<and> spec_pairs (map strip (splitlines
        (''#EXTINF:-1,A'' @ [CHR 0x0A] @ ''#EXTINF:-1,B'' @ [CHR 0x0A] @ ''http://u'')))
     = [(''A'', ''http://u''), (''B'', ''http://u'')]"
proof -
  have a: "parse_m3u (''#EXTINF:-1,A'' @ [CHR 0x0A] @ ''#EXTINF:-1,B'' @ [CHR 0x0A] @ ''http://u'')
     = [(''A'', ''http://u'')]"
    by code_simp
  have b: "spec_pairs (map strip (splitlines
        (''#EXTINF:-1,A'' @ [CHR 0x0A] @ ''#EXTINF:-1,B'' @ [CHR 0x0A] @ ''http://u'')))
     = [(''A'', ''http://u''), (''B'', ''http://u'')]"
    by code_simp
  from a b show ?thesis by (intro conjI)
qed

section \<open>Properties of the fetcher\<close>

text \<open>
  Claim C8. \<open>fetch_text\<close> makes at most three requests, sleeps \<open>2 * attempt_number\<close> seconds
  after each failed one (2, 4 and 6 seconds), returns the text of the first attempt that
  succeeds, and after three failures raises an exception that carries the third attempt's
  exception. An attempt fails when the request raises, when the status is not 200, or
  when decoding the body fails; the exception of a decoding failure carries the status,
  the content type and the first 32 bytes of the body.
\<close>

theorem fetch_text_retries:
  "fetch_text session url =
    (case attempt_once (session url 0) of
       Inr txt \<Rightarrow> ([Get 0], Inr txt)
     | Inl e0 \<Rightarrow>
        (case attempt_once (session url 1) of
           Inr txt \<Rightarrow> ([Get 0, Sleep 2, Get 1], Inr txt)
         | Inl e1 \<Rightarrow>
            (case attempt_once (session url 2) of
               Inr txt \<Rightarrow> ([Get 0, Sleep 2, Get 1, Sleep 4, Get 2], Inr txt)
             | Inl e2 \<Rightarrow>
                ([Get 0, Sleep 2, Get 1, Sleep 4, Get 2, Sleep 6],
                 Inl (FetchFailed 3 (Some e2))))))
   \<and> attempt_once (GetRaised m) = Inl (Cause m)
   \<and> (status \<noteq> 200 \<longrightarrow>
        attempt_once (Response status ctype (Inr txt) rd) = Inl (HTTPError status ctype))
   \<and> attempt_once (Response status ctype (Inl e) (Inr raw))
        = Inl (DecodeError e status ctype (take 32 raw))
   \<and> attempt_once (Response 200 ctype (Inr txt) rd) = Inr txt"
proof -
  have u: "[0..<max_attempts] = [0, 1, 2]"
    by (simp add: max_attempts_def upt_rec)
  have loop: "fetch_text session url =
    (case attempt_once (session url 0) of
       Inr txt \<Rightarrow> ([Get 0], Inr txt)
     | Inl e0 \<Rightarrow>
        (case attempt_once (session url 1) of
           Inr txt \<Rightarrow> ([Get 0, Sleep 2, Get 1], Inr txt)
         | Inl e1 \<Rightarrow>
            (case attempt_once (session url 2) of
               Inr txt \<Rightarrow> ([Get 0, Sleep 2, Get 1, Sleep 4, Get 2], Inr txt)
             | Inl e2 \<Rightarrow>
                ([Get 0, Sleep 2, Get 1, Sleep 4, Get 2, Sleep 6],
                 Inl (FetchFailed 3 (Some e2))))))"
    unfolding fetch_text_def u
    by (simp add: delay_def max_attempts_def split: sum.split)
  have once: "attempt_once (GetRaised m) = Inl (Cause m)"
    "status \<noteq> 200 \<longrightarrow>
        attempt_once (Response status ctype (Inr txt) rd) = Inl (HTTPError status ctype)"
    "attempt_once (Response status ctype (Inl e) (Inr raw))
        = Inl (DecodeError e status ctype (take 32 raw))"
    "attempt_once (Response 200 ctype (Inr txt) rd) = Inr txt"
    by (simp_all add: attempt_once_def)
  from loop once show ?thesis by (intro conjI)
qed

theorem fetch_text_retries_witness:
  "fetch_text (\<lambda>url k. if k = 2 then Response 200 ''audio/x-mpegurl'' (Inr ''#EXTM3U'') (Inr ''#EXTM3U'')
                         else if k = 1 then Response 503 ''text/html'' (Inr ''busy'') (Inr ''busy'')
                         else GetRaised ''Connection reset'') ''http://a/list.m3u''
     = ([Get 0, Sleep 2, Get 1, Sleep 4, Get 2], Inr ''#EXTM3U'')
   \<and> fetch_text (\<lambda>url k. Response 404 ''text/html'' (Inl ''codec can not decode'') (Inr [CHR 0xFF, CHR 0xFE]))
        ''http://a/list.m3u''
     = ([Get 0, Sleep 2, Get 1, Sleep 4, Get 2, Sleep 6],
        Inl (FetchFailed 3 (Some (DecodeError ''codec can not decode'' 404 ''text/html'' [CHR 0xFF, CHR 0xFE]))))
   \<and> attempt_once (Response 503 ''text/html'' (Inr ''busy'') (Inr ''busy'')) = Inl (HTTPError 503 ''text/html'')"
proof -
  let ?s1 = "\<lambda>(url::string) (k::nat).
      if k = 2 then Response 200 ''audio/x-mpegurl'' (Inr ''#EXTM3U'') (Inr ''#EXTM3U'')
      else if k = 1 then Response 503 ''text/html'' (Inr ''busy'') (Inr ''busy'')
      else GetRaised ''Connection reset''"
  let ?s2 = "\<lambda>(url::string) (k::nat).
      Response 404 ''text/html'' (Inl ''codec can not decode'') (Inr [CHR 0xFF, CHR 0xFE])"
  from fetch_text_retries [of ?s1 "''http://a/list.m3u''" "''''" 503 "''text/html''" "''busy''" "Inr ''busy''" "''''" "[]"]
  have 1: "fetch_text ?s1 ''http://a/list.m3u'' = ([Get 0, Sleep 2, Get 1, Sleep 4, Get 2], Inr ''#EXTM3U'')"
    and 3: "attempt_once (Response 503 ''text/html'' (Inr ''busy'') (Inr ''busy'')) = Inl (HTTPError 503 ''text/html'')"
    by (simp_all add: attempt_once_def)
  from fetch_text_retries [of ?s2 "''http://a/list.m3u''" "''''" 503 "''text/html''" "''busy''" "Inr ''busy''" "''''" "[]"]
  have 2: "fetch_text ?s2 ''http://a/list.m3u''
     = ([Get 0, Sleep 2, Get 1, Sleep 4, Get 2, Sleep 6],
        Inl (FetchFailed 3 (Some (DecodeError ''codec can not decode'' 404 ''text/html'' [CHR 0xFF, CHR 0xFE]))))"
    by (simp add: attempt_once_def)
  from 1 2 3 show ?thesis by (intro conjI)
qed

section \<open>Properties of the monitor\<close>

text \<open>
  Claim C9. On an empty channel list \<open>run_once\<close> returns the empty result list and leaves
  the storage as it was, no result row being inserted; so does a second call that follows
  the first.
\<close>

theorem run_once_empty:
  assumes "list_channels d = []"
  shows "run_once w1 d = Inr ([], d)
       \<and> run_once w2 (snd (projr (run_once w1 d))) = Inr ([], d)"
  using assms by (simp add: run_once_def)

theorem run_once_empty_witness:
  "run_once (\<lambda>_. \<lparr>run = (\<lambda>_. RunRaised ''''), time_start = 0, time_end = 0\<rparr>)
      \<lparr>channels = [], results = []\<rparr> = Inr ([], \<lparr>channels = [], results = []\<rparr>)
   \<and> run_once (\<lambda>_. \<lparr>run = (\<lambda>_. RunRaised ''''), time_start = 0, time_end = 0\<rparr>)
      (snd (projr (run_once (\<lambda>_. \<lparr>run = (\<lambda>_. RunRaised ''''),
                                    time_start = 0, time_end = 0\<rparr>)
        \<lparr>channels = [], results = []\<rparr>))) = Inr ([], \<lparr>channels = [], results = []\<rparr>)"
proof -
  have e: "list_channels \<lparr>channels = [], results = []\<rparr> = []"
    by (simp add: list_channels_def)
  show ?thesis by (rule run_once_empty [OF e])
qed

section \<open>Properties of \<open>probe_channel\<close>\<close>

lemma round_half_even_err: "\<bar>of_int (round_half_even x) - x\<bar> \<le> 1 / 2"
proof -
  have "of_int \<lfloor>x\<rfloor> \<le> x" and "x < of_int \<lfloor>x\<rfloor> + 1"
    by linarith+
  then show ?thesis
    by (auto simp: round_half_even_def Let_def)
qed

lemma py_round2_err: "\<bar>py_round2 x - x\<bar> \<le> 1 / 200"
proof -
  have "\<bar>of_int (round_half_even (x * 100)) - x * 100\<bar> \<le> 1 / 2"
    by (rule round_half_even_err)
  then have "\<bar>(of_int (round_half_even (x * 100)) - x * 100) / 100\<bar> \<le> (1 / 2) / 100"
    by (simp only: abs_divide) simp
  then show ?thesis
    by (simp add: py_round2_def diff_divide_distrib)
qed

text \<open>The gap between the counter and the list of disconnects, and the distance between
  the running total and the sum of the events, along one window.\<close>

lemma periodic_round_disconnects:
  "c_disconnects_count (rec (periodic_round url d s r l))
      - int (length (c_disconnects (rec (periodic_round url d s r l))))
    = c_disconnects_count (rec l) - int (length (c_disconnects (rec l)))"
  by (simp add: periodic_round_def Let_def update_running_def on_error_def on_buffering_def
      note_probe_def split: prod.split option.split)

lemma periodic_round_errors:
  "int (length (c_disconnects (rec (periodic_round url d s r l))))
      - error_count (periodic_round url d s r l)
    = int (length (c_disconnects (rec l))) - error_count l"
  by (simp add: periodic_round_def Let_def update_running_def on_error_def on_buffering_def
      note_probe_def split: prod.split option.split)

lemma periodic_round_issues:
  "c_issues (rec (periodic_round url d s r l))
    = (buffer_count (periodic_round url d s r l), error_count (periodic_round url d s r l))"
  by (simp add: periodic_round_def Let_def update_running_def on_error_def on_buffering_def
      note_probe_def split: prod.split option.split)

lemma on_buffering_total:
  "\<bar>c_buffering_total_seconds (rec (on_buffering t l))
       - sum_list (c_buffering_events (rec (on_buffering t l)))\<bar>
     + of_nat (length (c_buffering_events (rec l))) / 200
   \<le> \<bar>c_buffering_total_seconds (rec l) - sum_list (c_buffering_events (rec l))\<bar>
     + of_nat (length (c_buffering_events (rec (on_buffering t l)))) / 200"
proof -
  define b :: rat where "b = (case t of Some t \<Rightarrow> if t \<noteq> 0 then t else 0 | None \<Rightarrow> 0)"
  have e: "\<bar>py_round2 b - b\<bar> \<le> 1 / 200"
    by (rule py_round2_err)
  have 1: "c_buffering_total_seconds (rec (on_buffering t l))
      = c_buffering_total_seconds (rec l) + b"
    and 2: "c_buffering_events (rec (on_buffering t l)) = c_buffering_events (rec l) @ [py_round2 b]"
    by (simp_all add: on_buffering_def b_def Let_def)
  let ?T = "c_buffering_total_seconds (rec l)" and ?S = "sum_list (c_buffering_events (rec l))"
  have "\<bar>?T + b - (?S + py_round2 b)\<bar> = \<bar>(?T - ?S) + (b - py_round2 b)\<bar>"
    by (simp add: algebra_simps)
  also have "\<dots> \<le> \<bar>?T - ?S\<bar> + \<bar>b - py_round2 b\<bar>"
    by (rule abs_triangle_ineq)
  also have "\<bar>b - py_round2 b\<bar> = \<bar>py_round2 b - b\<bar>"
    by (rule abs_minus_commute)
  finally have "\<bar>?T + b - (?S + py_round2 b)\<bar> \<le> \<bar>?T - ?S\<bar> + 1 / 200"
    using e by linarith
  then show ?thesis
    unfolding 1 2 by (simp add: add_divide_distrib)
qed

lemma periodic_round_total:
  "\<bar>c_buffering_total_seconds (rec (periodic_round url d s r l))
       - sum_list (c_buffering_events (rec (periodic_round url d s r l)))\<bar>
     + of_nat (length (c_buffering_events (rec l))) / 200
   \<le> \<bar>c_buffering_total_seconds (rec l) - sum_list (c_buffering_events (rec l))\<bar>
     + of_nat (length (c_buffering_events (rec (periodic_round url d s r l)))) / 200"
proof -
  obtain res nts resolution t where
    p: "probe_or_error (probe r) url (min 10 (max 1 (py_int (of_int d - (t_top r - s)))))
          = (res, nts, resolution, t)"
    by (metis prod_cases4)
  let ?l1 = "note_probe nts resolution l"
  have n: "rec ?l1 = rec l"
    by (simp add: note_probe_def split: option.split)
  show ?thesis
  proof (cases "res = Buffering")
    case True
    then have "rec (periodic_round url d s r l)
        = (rec (on_buffering t ?l1))\<lparr>
            c_status := Testing,
            c_details := nts,
            c_resolution := last_resolution ?l1,
            c_test_duration := (case t of Some t \<Rightarrow> if t \<noteq> 0 then fmt_2f t @ ''s'' else '''' | None \<Rightarrow> ''''),
            c_tested_seconds := py_int (t_upd r - s),
            c_issues := (buffer_count ?l1 + 1, error_count ?l1)\<rparr>"
      by (simp add: periodic_round_def Let_def p update_running_def on_buffering_def note_probe_def
          split: option.split)
    then have eq: "c_buffering_total_seconds (rec (periodic_round url d s r l))
          = c_buffering_total_seconds (rec (on_buffering t ?l1))"
        "c_buffering_events (rec (periodic_round url d s r l))
          = c_buffering_events (rec (on_buffering t ?l1))"
      by simp_all
    from on_buffering_total [of t ?l1] show ?thesis
      by (simp only: eq n)
  next
    case False
    then have "c_buffering_total_seconds (rec (periodic_round url d s r l))
          = c_buffering_total_seconds (rec l)"
        "c_buffering_events (rec (periodic_round url d s r l)) = c_buffering_events (rec l)"
      by (simp_all add: periodic_round_def Let_def p update_running_def on_error_def note_probe_def
          split: option.split)
    then show ?thesis by simp
  qed
qed

lemma periodic_loop_invariants:
  assumes "periodic_loop url d s rs l = Some l'"
  shows "c_disconnects_count (rec l') - int (length (c_disconnects (rec l')))
           = c_disconnects_count (rec l) - int (length (c_disconnects (rec l)))"
    and "int (length (c_disconnects (rec l'))) - error_count l'
           = int (length (c_disconnects (rec l))) - error_count l"
    and "\<bar>c_buffering_total_seconds (rec l') - sum_list (c_buffering_events (rec l'))\<bar>
           + of_nat (length (c_buffering_events (rec l))) / 200
         \<le> \<bar>c_buffering_total_seconds (rec l) - sum_list (c_buffering_events (rec l))\<bar>
           + of_nat (length (c_buffering_events (rec l'))) / 200"
  using assms
proof (induction rs arbitrary: l)
  case Nil
  {
    case 1 then show ?case by simp
  next
    case 2 then show ?case by simp
  next
    case 3 then show ?case by simp
  }
next
  case (Cons r rs)
  {
    case 1
    show ?case
    proof (cases "of_int d \<le> t_top r - s")
      case True
      with 1 show ?thesis by simp
    next
      case False
      with 1 have "periodic_loop url d s rs (periodic_round url d s r l) = Some l'" by simp
      from Cons.IH(1) [OF this] show ?thesis by (simp add: periodic_round_disconnects)
    qed
  next
    case 2
    show ?case
    proof (cases "of_int d \<le> t_top r - s")
      case True
      with 2 show ?thesis by simp
    next
      case False
      with 2 have "periodic_loop url d s rs (periodic_round url d s r l) = Some l'" by simp
      from Cons.IH(2) [OF this] show ?thesis by (simp add: periodic_round_errors)
    qed
  next
    case 3
    show ?case
    proof (cases "of_int d \<le> t_top r - s")
      case True
      with 3 show ?thesis by simp
    next
      case False
      with 3 have "periodic_loop url d s rs (periodic_round url d s r l) = Some l'" by simp
      from Cons.IH(3) [OF this] periodic_round_total [of url d s r l]
      show ?thesis by linarith
    qed
  }
qed

lemma note_probe_rec: "rec (note_probe n res l) = rec l"
  by (simp add: note_probe_def split: option.split)

lemma continuous_start_rec: "rec (continuous_start env url d l) = rec l"
  by (simp add: continuous_start_def Let_def split: sum.split prod.split option.split)

lemma continuous_start_counts:
  "buffer_count (continuous_start env url d l) = buffer_count l"
  "error_count (continuous_start env url d l) = error_count l"
  by (simp_all add: continuous_start_def Let_def split: sum.split prod.split option.split)

lemma read_stderr_line_rec: "rec (read_stderr_line line l) = rec l"
  by (simp add: read_stderr_line_def Let_def)

lemma read_stderr_rec: "rec (fold read_stderr_line ls l) = rec l"
  by (induction ls arbitrary: l) (simp_all add: read_stderr_line_rec)

lemma read_stderr_errors:
  "error_count (fold read_stderr_line ls l)
    = error_count l + int (length (filter
        (\<lambda>line. contains ''error'' (lower (strip line)) \<or> contains ''failed'' (lower (strip line))) ls))"
  by (induction ls arbitrary: l) (simp_all add: read_stderr_line_def Let_def)

lemma read_stderr_buffers:
  "buffer_count (fold read_stderr_line ls l)
    = buffer_count l + int (length (filter (\<lambda>line. contains ''buffer'' (lower (strip line))) ls))"
  by (induction ls arbitrary: l) (simp_all add: read_stderr_line_def Let_def)

text \<open>What a window that returns leaves in the record, for either mode.\<close>

lemma probe_channel_periodic:
  assumes "probe_channel env False d (cid, name, url) r = Returned (r', ret)"
  obtains l where
    "periodic_loop url d (t_begin env) (rounds env)
       \<lparr>buffer_count = 0, error_count = 0, last_notes = '''', last_resolution = '''',
        rec = r\<lparr>c_status := Testing\<rparr>\<rparr> = Some l"
    and "r' = finalize_periodic (t_begin env) (t_final env) l"
    and "ret = \<lparr>p_id = cid, p_name = name, p_url = url, p_result = c_status r',
                p_notes = last_notes l, p_issues = c_issues r'\<rparr>"
  using assms
  by (auto simp: probe_channel_def Let_def split: option.splits)

lemma probe_channel_continuous:
  assumes "probe_channel env True d (cid, name, url) r = Returned (r', ret)"
  obtains l where
    "rec l = r\<lparr>c_status := Testing\<rparr>"
    and "buffer_count l = int (length (filter (\<lambda>line. contains ''buffer'' (lower (strip line)))
            (stderr_lines env)))"
    and "error_count l = int (length (filter
            (\<lambda>line. contains ''error'' (lower (strip line)) \<or> contains ''failed'' (lower (strip line)))
            (stderr_lines env)))"
    and "r' = finalize_continuous (t_begin env) (t_final env) l"
    and "ret = \<lparr>p_id = cid, p_name = name, p_url = url, p_result = c_status r',
                p_notes = last_notes l, p_issues = c_issues r'\<rparr>"
proof -
  let ?l0 = "\<lparr>buffer_count = 0, error_count = 0, last_notes = '''', last_resolution = '''',
        rec = r\<lparr>c_status := Testing\<rparr>\<rparr>"
  let ?l1 = "continuous_start env url d ?l0"
  obtain w h res where f: "fold read_stdout_line (stdout_lines env) (None, None, last_resolution ?l1) = (w, h, res)"
    by (metis prod_cases3)
  let ?l2 = "fold read_stderr_line (stderr_lines env) (?l1\<lparr>last_resolution := res\<rparr>)"
  from assms have sp: "spawn env = None"
    by (auto simp: probe_channel_def Let_def split: option.splits)
  from assms sp f have r': "r' = finalize_continuous (t_begin env) (t_final env) ?l2"
    and ret: "ret = \<lparr>p_id = cid, p_name = name, p_url = url, p_result = c_status r',
                p_notes = last_notes ?l2, p_issues = c_issues r'\<rparr>"
    by (auto simp: probe_channel_def Let_def)
  have 1: "rec ?l2 = r\<lparr>c_status := Testing\<rparr>"
    by (simp add: read_stderr_rec continuous_start_rec)
  have 2: "buffer_count ?l2 = int (length (filter (\<lambda>line. contains ''buffer'' (lower (strip line)))
            (stderr_lines env)))"
    by (simp add: read_stderr_buffers continuous_start_counts)
  have 3: "error_count ?l2 = int (length (filter
            (\<lambda>line. contains ''error'' (lower (strip line)) \<or> contains ''failed'' (lower (strip line)))
            (stderr_lines env)))"
    by (simp add: read_stderr_errors continuous_start_counts)
  from that [OF 1 2 3 r' ret] show ?thesis .
qed

lemma finalize_status:
  "c_status (finalize_periodic s t l) = (if buffer_count l = 0 \<and> error_count l = 0 then Pass else Issue)"
  "c_issues (finalize_periodic s t l) = (buffer_count l, error_count l)"
  "c_status (finalize_continuous s t l) = (if buffer_count l = 0 \<and> error_count l = 0 then Pass else Issue)"
  "c_issues (finalize_continuous s t l) = (buffer_count l, error_count l)"
  by (simp_all add: finalize_periodic_def finalize_continuous_def Let_def)

lemma finalize_carried:
  "c_disconnects_count (finalize_periodic s t l) = c_disconnects_count (rec l)"
  "c_disconnects (finalize_periodic s t l) = c_disconnects (rec l)"
  "c_buffering_events (finalize_periodic s t l) = c_buffering_events (rec l)"
  "c_buffering_total_seconds (finalize_periodic s t l) = py_round2 (c_buffering_total_seconds (rec l))"
  "c_disconnects_count (finalize_continuous s t l) = c_disconnects_count (rec l)"
  "c_disconnects (finalize_continuous s t l) = c_disconnects (rec l)"
  "c_buffering_events (finalize_continuous s t l) = c_buffering_events (rec l)"
  "c_buffering_total_seconds (finalize_continuous s t l) = py_round2 (c_buffering_total_seconds (rec l))"
  by (simp_all add: finalize_periodic_def finalize_continuous_def Let_def)

lemma periodic_round_counts:
  "buffer_count (periodic_round url d s r l)
     = buffer_count l + (if round_result url d s r = Buffering then 1 else 0)"
  "error_count (periodic_round url d s r l)
     = error_count l + (if round_result url d s r = Error then 1 else 0)"
  by (simp_all add: periodic_round_def round_result_def Let_def update_running_def on_error_def
      on_buffering_def note_probe_def split: prod.split option.split)

lemma periodic_loop_counts:
  assumes "periodic_loop url d s rs l = Some l'"
  shows "buffer_count l' = buffer_count l
           + int (length (filter (\<lambda>r. round_result url d s r = Buffering) (window_rounds d s rs)))"
    and "error_count l' = error_count l
           + int (length (filter (\<lambda>r. round_result url d s r = Error) (window_rounds d s rs)))"
  using assms
proof (induction rs arbitrary: l)
  case Nil
  {
    case 1 then show ?case by simp
  next
    case 2 then show ?case by simp
  }
next
  case (Cons r rs)
  {
    case 1
    show ?case
    proof (cases "of_int d \<le> t_top r - s")
      case True
      with 1 show ?thesis by (simp add: window_rounds_def)
    next
      case False
      with 1 have "periodic_loop url d s rs (periodic_round url d s r l) = Some l'" by simp
      from Cons.IH(1) [OF this] False show ?thesis
        by (simp add: window_rounds_def periodic_round_counts)
    qed
  next
    case 2
    show ?case
    proof (cases "of_int d \<le> t_top r - s")
      case True
      with 2 show ?thesis by (simp add: window_rounds_def)
    next
      case False
      with 2 have "periodic_loop url d s rs (periodic_round url d s r l) = Some l'" by simp
      from Cons.IH(2) [OF this] False show ?thesis
        by (simp add: window_rounds_def periodic_round_counts)
    qed
  }
qed

text \<open>
  The periodic loop ends exactly when one of the clock readings at the top of a pass has
  reached the duration; the process of continuous mode is all that can keep a continuous
  window from returning.
\<close>

lemma periodic_loop_returns:
  "(\<exists>l'. periodic_loop url d s rs l = Some l') \<longleftrightarrow> (\<exists>x \<in> set rs. of_int d \<le> t_top x - s)"
  by (induction rs arbitrary: l) auto

lemma probe_channel_returns:
  "(\<exists>out. probe_channel env continuous_mode d (cid, name, url) r = Returned out)
     \<longleftrightarrow> (if continuous_mode then spawn env = None
          else \<exists>x \<in> set (rounds env). of_int d \<le> t_top x - t_begin env)"
proof (cases continuous_mode)
  case True
  then show ?thesis
    by (simp add: probe_channel_def Let_def split: option.split prod.split)
next
  case False
  let ?l0 = "\<lparr>buffer_count = 0, error_count = 0, last_notes = '''', last_resolution = '''',
        rec = r\<lparr>c_status := Testing\<rparr>\<rparr>"
  have "(\<exists>out. probe_channel env False d (cid, name, url) r = Returned out)
      \<longleftrightarrow> (\<exists>l'. periodic_loop url d (t_begin env) (rounds env) ?l0 = Some l')"
    by (simp add: probe_channel_def Let_def split: option.split)
  with False show ?thesis
    by (simp add: periodic_loop_returns)
qed

text \<open>
  Claim C2. A measurement window returns, in periodic mode when the clock reaches the
  duration at the top of a pass, in continuous mode when the long-running process starts,
  and in no other case. Whenever it returns, the finalized record's status is \<open>pass\<close>
  exactly when its buffering counter and its error counter are both zero, and is \<open>issue\<close>
  otherwise; the returned dictionary carries the same status and counters. The counters are
  those of the window: in continuous mode the numbers of diagnostic lines read that contain
  \<open>buffer\<close>, and \<open>error\<close> or \<open>failed\<close>; in periodic mode the numbers of probes of the
  window that reported \<open>buffering\<close>, and \<open>error\<close>.
\<close>

theorem probe_channel_final_status:
  "((\<exists>out. probe_channel env continuous_mode duration_seconds (cid, name, url) r = Returned out)
      \<longleftrightarrow> (if continuous_mode then spawn env = None
           else \<exists>x \<in> set (rounds env). of_int duration_seconds \<le> t_top x - t_begin env))
   \<and> (\<forall>r' ret.
         probe_channel env continuous_mode duration_seconds (cid, name, url) r = Returned (r', ret) \<longrightarrow>
           (c_status r' = Pass \<longleftrightarrow> fst (c_issues r') = 0 \<and> snd (c_issues r') = 0)
         \<and> (c_status r' \<noteq> Pass \<longrightarrow> c_status r' = Issue)
         \<and> p_result ret = c_status r' \<and> p_issues ret = c_issues r'
         \<and> (continuous_mode \<longrightarrow>
              c_issues r' = (int (length (filter buffer_line (stderr_lines env))),
                             int (length (filter error_line (stderr_lines env)))))
         \<and> (\<not> continuous_mode \<longrightarrow>
              c_issues r' =
                (int (length (filter (\<lambda>x. round_result url duration_seconds (t_begin env) x = Buffering)
                        (window_rounds duration_seconds (t_begin env) (rounds env)))),
                 int (length (filter (\<lambda>x. round_result url duration_seconds (t_begin env) x = Error)
                        (window_rounds duration_seconds (t_begin env) (rounds env)))))))"
proof (intro conjI allI impI)
  show "(\<exists>out. probe_channel env continuous_mode duration_seconds (cid, name, url) r = Returned out)
      \<longleftrightarrow> (if continuous_mode then spawn env = None
           else \<exists>x \<in> set (rounds env). of_int duration_seconds \<le> t_top x - t_begin env)"
    by (rule probe_channel_returns)
next
  fix r' ret
  assume ret: "probe_channel env continuous_mode duration_seconds (cid, name, url) r = Returned (r', ret)"
  have lines: "buffer_line = (\<lambda>line. contains ''buffer'' (lower (strip line)))"
    "error_line = (\<lambda>line. contains ''error'' (lower (strip line))
        \<or> contains ''failed'' (lower (strip line)))"
    by (rule ext, simp add: buffer_line_def, rule ext, simp add: error_line_def)
  have all: "(c_status r' = Pass \<longleftrightarrow> fst (c_issues r') = 0 \<and> snd (c_issues r') = 0)
       \<and> (c_status r' \<noteq> Pass \<longrightarrow> c_status r' = Issue)
       \<and> p_result ret = c_status r' \<and> p_issues ret = c_issues r'
       \<and> (continuous_mode \<longrightarrow>
            c_issues r' = (int (length (filter buffer_line (stderr_lines env))),
                           int (length (filter error_line (stderr_lines env)))))
       \<and> (\<not> continuous_mode \<longrightarrow>
            c_issues r' =
              (int (length (filter (\<lambda>x. round_result url duration_seconds (t_begin env) x = Buffering)
                      (window_rounds duration_seconds (t_begin env) (rounds env)))),
               int (length (filter (\<lambda>x. round_result url duration_seconds (t_begin env) x = Error)
                      (window_rounds duration_seconds (t_begin env) (rounds env))))))"
  proof (cases continuous_mode)
    case True
    with ret
    have "probe_channel env True duration_seconds (cid, name, url) r = Returned (r', ret)"
      by simp
    then show ?thesis
      by (rule probe_channel_continuous) (simp add: finalize_status True lines)
  next
    case False
    with ret have "probe_channel env False duration_seconds (cid, name, url) r = Returned (r', ret)"
      by simp
    then show ?thesis
    proof (rule probe_channel_periodic)
      fix l
      let ?l0 = "\<lparr>buffer_count = 0, error_count = 0, last_notes = '''', last_resolution = '''',
          rec = r\<lparr>c_status := Testing\<rparr>\<rparr>"
      assume loop: "periodic_loop url duration_seconds (t_begin env) (rounds env) ?l0 = Some l"
        and r': "r' = finalize_periodic (t_begin env) (t_final env) l"
        and rt: "ret = \<lparr>p_id = cid, p_name = name, p_url = url, p_result = c_status r',
                  p_notes = last_notes l, p_issues = c_issues r'\<rparr>"
      from periodic_loop_counts [OF loop] show ?thesis
        by (simp add: r' rt finalize_status False)
    qed
  qed
  from all show "c_status r' = Pass \<longleftrightarrow> fst (c_issues r') = 0 \<and> snd (c_issues r') = 0" by simp
  from all show "c_status r' = Issue" if "c_status r' \<noteq> Pass" using that by simp
  from all show "p_result ret = c_status r'" by simp
  from all show "p_issues ret = c_issues r'" by simp
  from all show "c_issues r' = (int (length (filter buffer_line (stderr_lines env))),
                           int (length (filter error_line (stderr_lines env))))"
    if continuous_mode using that by simp
  from all show "c_issues r' =
              (int (length (filter (\<lambda>x. round_result url duration_seconds (t_begin env) x = Buffering)
                      (window_rounds duration_seconds (t_begin env) (rounds env)))),
               int (length (filter (\<lambda>x. round_result url duration_seconds (t_begin env) x = Error)
                      (window_rounds duration_seconds (t_begin env) (rounds env)))))"
    if "\<not> continuous_mode" using that by simp
qed

theorem probe_channel_final_status_witness:
  "(\<exists>r' ret.
     probe_channel
        (periodic_env [round_at 0 failed_probe, round_at 2 (refused_probe (51 / 250)),
                       round_at 4 quiet_probe, round_at 8 quiet_probe] 8)
        False 8 (1, ''A'', ''http://a'') (new_channel_json Map.empty (1, ''A'', ''http://a''))
       = Returned (r', ret)
     \<and> c_status r' = Issue \<and> c_issues r' = (1, 1) \<and> p_result ret = Issue)
   \<and> (\<exists>r' ret.
     probe_channel (periodic_env [round_at 0 quiet_probe, round_at 8 quiet_probe] 8)
        False 8 (1, ''A'', ''http://a'') (new_channel_json Map.empty (1, ''A'', ''http://a''))
       = Returned (r', ret)
     \<and> c_status r' = Pass \<and> c_issues r' = (0, 0) \<and> p_result ret = Pass)
   \<and> (\<exists>r' ret.
     probe_channel (continuous_env [''width=1280'', ''height=720''] [''Connection error'', ''rebuffering''] 60)
        True 60 (1, ''A'', ''http://a'') (new_channel_json Map.empty (1, ''A'', ''http://a''))
       = Returned (r', ret)
     \<and> c_status r' = Issue \<and> c_issues r' = (1, 1) \<and> p_result ret = Issue)"
proof (intro conjI)
  let ?r0 = "new_channel_json Map.empty (1, ''A'', ''http://a'')"
  let ?E = "periodic_env [round_at 0 failed_probe, round_at 2 (refused_probe (51 / 250)),
                       round_at 4 quiet_probe, round_at 8 quiet_probe] 8"
  let ?X = "probe_channel ?E False 8 (1, ''A'', ''http://a'') ?r0"
  note T = probe_channel_final_status [of ?E False 8 1 "''A''" "''http://a''" ?r0]
  have "\<exists>x \<in> set (rounds ?E). of_int 8 \<le> t_top x - t_begin ?E"
    by (simp add: periodic_env_def round_at_def)
  with T obtain r' ret where x: "?X = Returned (r', ret)"
    by auto
  have "map_option (c_issues \<circ> fst) (returned ?X) = Some (1, 1)"
    by code_simp
  with x have c: "c_issues r' = (1, 1)"
    by (simp add: returned_def)
  from T x c have "c_status r' = Issue" and "p_result ret = Issue"
    by auto
  with x c show "\<exists>r' ret. ?X = Returned (r', ret)
     \<and> c_status r' = Issue \<and> c_issues r' = (1, 1) \<and> p_result ret = Issue"
    by blast
next
  let ?r0 = "new_channel_json Map.empty (1, ''A'', ''http://a'')"
  let ?E = "periodic_env [round_at 0 quiet_probe, round_at 8 quiet_probe] 8"
  let ?X = "probe_channel ?E False 8 (1, ''A'', ''http://a'') ?r0"
  note T = probe_channel_final_status [of ?E False 8 1 "''A''" "''http://a''" ?r0]
  have "\<exists>x \<in> set (rounds ?E). of_int 8 \<le> t_top x - t_begin ?E"
    by (simp add: periodic_env_def round_at_def)
  with T obtain r' ret where x: "?X = Returned (r', ret)"
    by auto
  have "map_option (c_issues \<circ> fst) (returned ?X) = Some (0, 0)"
    by code_simp
  with x have c: "c_issues r' = (0, 0)"
    by (simp add: returned_def)
  from T x c have "c_status r' = Pass" and "p_result ret = Pass"
    by auto
  with x c show "\<exists>r' ret. ?X = Returned (r', ret)
     \<and> c_status r' = Pass \<and> c_issues r' = (0, 0) \<and> p_result ret = Pass"
    by blast
next
  let ?r0 = "new_channel_json Map.empty (1, ''A'', ''http://a'')"
  let ?E = "continuous_env [''width=1280'', ''height=720''] [''Connection error'', ''rebuffering''] 60"
  let ?X = "probe_channel ?E True 60 (1, ''A'', ''http://a'') ?r0"
  note T = probe_channel_final_status [of ?E True 60 1 "''A''" "''http://a''" ?r0]
  have "spawn ?E = None"
    by (simp add: continuous_env_def)
  with T obtain r' ret where x: "?X = Returned (r', ret)"
    by auto
  have "map_option (c_issues \<circ> fst) (returned ?X) = Some (1, 1)"
    by code_simp
  with x have c: "c_issues r' = (1, 1)"
    by (simp add: returned_def)
  from T x c have "c_status r' = Issue" and "p_result ret = Issue"
    by auto
  with x c show "\<exists>r' ret. ?X = Returned (r', ret)
     \<and> c_status r' = Issue \<and> c_issues r' = (1, 1) \<and> p_result ret = Issue"
    by blast
qed

lemma round_total_bound:
  "\<bar>py_round2 T - S\<bar> \<le> \<bar>T - S\<bar> + 1 / 200"
proof -
  have "\<bar>py_round2 T - S\<bar> = \<bar>(py_round2 T - T) + (T - S)\<bar>" by simp
  also have "\<dots> \<le> \<bar>py_round2 T - T\<bar> + \<bar>T - S\<bar>" by (rule abs_triangle_ineq)
  finally show ?thesis using py_round2_err [of T] by linarith
qed

text \<open>
  Claim C4, as amended. For a record that enters its window with \<open>disconnects_count\<close>
  equal to the length of \<open>disconnects\<close>, the two are equal again after the finalize step.
  In exact arithmetic, the distance between \<open>buffering_total_seconds\<close> and the sum of
  \<open>buffering_events\<close> after the finalize step is at most the distance at the start of the
  window plus 0.005 for each buffering event appended in the window and 0.005 for the final
  rounding; it is not bounded by 0.01.
\<close>

theorem probe_channel_finalize:
  assumes "probe_channel env continuous_mode duration_seconds c r = Returned (r', ret)"
    and "c_disconnects_count r = int (length (c_disconnects r))"
  shows "c_disconnects_count r' = int (length (c_disconnects r'))
       \<and> \<bar>c_buffering_total_seconds r' - sum_list (c_buffering_events r')\<bar>
            + of_nat (length (c_buffering_events r)) / 200
          \<le> \<bar>c_buffering_total_seconds r - sum_list (c_buffering_events r)\<bar>
            + (of_nat (length (c_buffering_events r')) + 1) / 200"
proof -
  obtain cid name url where c: "c = (cid, name, url)"
    by (metis prod_cases3)
  show ?thesis
  proof (cases continuous_mode)
    case True
    with assms c have "probe_channel env True duration_seconds (cid, name, url) r = Returned (r', ret)"
      by simp
    then show ?thesis
    proof (rule probe_channel_continuous)
      fix l
      assume l: "rec l = r\<lparr>c_status := Testing\<rparr>"
        and r': "r' = finalize_continuous (t_begin env) (t_final env) l"
      from round_total_bound [of "c_buffering_total_seconds r" "sum_list (c_buffering_events r)"]
      show ?thesis
        using assms(2) by (simp add: r' finalize_carried l add_divide_distrib)
    qed
  next
    case False
    with assms c have "probe_channel env False duration_seconds (cid, name, url) r = Returned (r', ret)"
      by simp
    then show ?thesis
    proof (rule probe_channel_periodic)
      fix l
      let ?l0 = "\<lparr>buffer_count = 0, error_count = 0, last_notes = '''', last_resolution = '''',
        rec = r\<lparr>c_status := Testing\<rparr>\<rparr>"
      assume loop: "periodic_loop url duration_seconds (t_begin env) (rounds env) ?l0 = Some l"
        and r': "r' = finalize_periodic (t_begin env) (t_final env) l"
      from periodic_loop_invariants(1) [OF loop] assms(2)
      have d: "c_disconnects_count (rec l) = int (length (c_disconnects (rec l)))"
        by simp
      from periodic_loop_invariants(3) [OF loop]
      have t: "\<bar>c_buffering_total_seconds (rec l) - sum_list (c_buffering_events (rec l))\<bar>
           + of_nat (length (c_buffering_events r)) / 200
         \<le> \<bar>c_buffering_total_seconds r - sum_list (c_buffering_events r)\<bar>
           + of_nat (length (c_buffering_events (rec l))) / 200"
        by simp
      from round_total_bound [of "c_buffering_total_seconds (rec l)" "sum_list (c_buffering_events (rec l))"] t
      have "\<bar>py_round2 (c_buffering_total_seconds (rec l)) - sum_list (c_buffering_events (rec l))\<bar>
            + of_nat (length (c_buffering_events r)) / 200
          \<le> \<bar>c_buffering_total_seconds r - sum_list (c_buffering_events r)\<bar>
            + (of_nat (length (c_buffering_events (rec l))) + 1) / 200"
        by (simp add: add_divide_distrib)
      with d show ?thesis
        by (simp add: r' finalize_carried)
    qed
  qed
qed

theorem probe_channel_finalize_witness:
  "\<exists>r' ret.
     probe_channel
        (periodic_env [round_at 0 failed_probe, round_at 2 (refused_probe (51 / 250)),
                       round_at 4 quiet_probe, round_at 8 quiet_probe] 8)
        False 8 (1, ''A'', ''http://a'') (new_channel_json Map.empty (1, ''A'', ''http://a''))
       = Returned (r', ret)
     \<and> c_disconnects r' = [1]
     \<and> c_disconnects_count r' = 1
     \<and> c_buffering_events r' = [1 / 5]
     \<and> \<bar>c_buffering_total_seconds r' - 1 / 5\<bar> \<le> 1 / 100"
proof -
  let ?r = "new_channel_json Map.empty (1, ''A'', ''http://a'')"
  let ?X = "probe_channel
        (periodic_env [round_at 0 failed_probe, round_at 2 (refused_probe (51 / 250)),
                       round_at 4 quiet_probe, round_at 8 quiet_probe] 8)
        False 8 (1, ''A'', ''http://a'') ?r"
  have d: "map_option (c_disconnects \<circ> fst) (returned ?X) = Some [1]"
    by code_simp
  have e: "map_option (c_buffering_events \<circ> fst) (returned ?X) = Some [1 / 5]"
    by code_simp
  from d e obtain r' ret where x: "?X = Returned (r', ret)"
    and d': "c_disconnects r' = [1]" and e': "c_buffering_events r' = [1 / 5]"
    by (cases ?X) (auto simp: returned_def)
  have pre: "c_disconnects_count ?r = int (length (c_disconnects ?r))"
    and r0: "c_buffering_total_seconds ?r = 0" "c_buffering_events ?r = []"
    by (simp_all add: new_channel_json_def)
  from probe_channel_finalize [OF x pre]
  have "c_disconnects_count r' = 1"
    and "\<bar>c_buffering_total_seconds r' - 1 / 5\<bar> \<le> 1 / 100"
    by (simp_all add: d' e' r0)
  with x d' e' show ?thesis by blast
qed

text \<open>
  Claim C4 as stated fails in periodic mode: four probes that each report buffering after
  0.204 seconds append four events of 0.2, while the total, accumulated unrounded and
  rounded once at the end, is 0.82; the two differ by 0.02.
\<close>

theorem probe_channel_finalize_counterexample:
  "map_option (c_buffering_total_seconds \<circ> fst) (returned (probe_channel
        (periodic_env [round_at 0 (refused_probe (51 / 250)), round_at 2 (refused_probe (51 / 250)),
                       round_at 4 (refused_probe (51 / 250)), round_at 6 (refused_probe (51 / 250)),
                       round_at 8 quiet_probe] 8)
        False 8 (1, ''A'', ''http://a'') (new_channel_json Map.empty (1, ''A'', ''http://a''))))
     = Some (41 / 50)
   \<and> map_option (c_buffering_events \<circ> fst) (returned (probe_channel
        (periodic_env [round_at 0 (refused_probe (51 / 250)), round_at 2 (refused_probe (51 / 250)),
                       round_at 4 (refused_probe (51 / 250)), round_at 6 (refused_probe (51 / 250)),
                       round_at 8 quiet_probe] 8)
        False 8 (1, ''A'', ''http://a'') (new_channel_json Map.empty (1, ''A'', ''http://a''))))
     = Some [1 / 5, 1 / 5, 1 / 5, 1 / 5]
   \<and> 1 / 100 < \<bar>41 / 50 - sum_list [1 / 5, 1 / 5, 1 / 5, 1 / 5 :: rat]\<bar>"
proof -
  have a: "map_option (c_buffering_total_seconds \<circ> fst) (returned (probe_channel
        (periodic_env [round_at 0 (refused_probe (51 / 250)), round_at 2 (refused_probe (51 / 250)),
                       round_at 4 (refused_probe (51 / 250)), round_at 6 (refused_probe (51 / 250)),
                       round_at 8 quiet_probe] 8)
        False 8 (1, ''A'', ''http://a'') (new_channel_json Map.empty (1, ''A'', ''http://a''))))
     = Some (41 / 50)"
    by code_simp
  have b: "map_option (c_buffering_events \<circ> fst) (returned (probe_channel
        (periodic_env [round_at 0 (refused_probe (51 / 250)), round_at 2 (refused_probe (51 / 250)),
                       round_at 4 (refused_probe (51 / 250)), round_at 6 (refused_probe (51 / 250)),
                       round_at 8 quiet_probe] 8)
        False 8 (1, ''A'', ''http://a'') (new_channel_json Map.empty (1, ''A'', ''http://a''))))
     = Some [1 / 5, 1 / 5, 1 / 5, 1 / 5]"
    by code_simp
  have c: "1 / 100 < \<bar>41 / 50 - sum_list [1 / 5, 1 / 5, 1 / 5, 1 / 5 :: rat]\<bar>"
    by simp
  from a b c show ?thesis by (intro conjI)
qed

lemma continuous_keeps_disconnects:
  assumes "probe_channel env True duration_seconds c r = Returned (r', ret)"
  shows "c_disconnects r' = c_disconnects r \<and> c_disconnects_count r' = c_disconnects_count r
       \<and> snd (c_issues r') = int (length (filter
            (\<lambda>line. contains ''error'' (lower (strip line)) \<or> contains ''failed'' (lower (strip line)))
            (stderr_lines env)))"
proof -
  obtain cid name url where c: "c = (cid, name, url)"
    by (metis prod_cases3)
  from assms c have "probe_channel env True duration_seconds (cid, name, url) r = Returned (r', ret)"
    by simp
  then show ?thesis
    by (rule probe_channel_continuous) (simp add: finalize_carried finalize_status)
qed

lemma periodic_appends_disconnects:
  assumes "probe_channel env False duration_seconds c r = Returned (r', ret)"
  shows "int (length (c_disconnects r')) = int (length (c_disconnects r)) + snd (c_issues r')"
proof -
  obtain cid name url where c: "c = (cid, name, url)"
    by (metis prod_cases3)
  from assms c have "probe_channel env False duration_seconds (cid, name, url) r = Returned (r', ret)"
    by simp
  then show ?thesis
  proof (rule probe_channel_periodic)
    fix l
    let ?l0 = "\<lparr>buffer_count = 0, error_count = 0, last_notes = '''', last_resolution = '''',
        rec = r\<lparr>c_status := Testing\<rparr>\<rparr>"
    assume loop: "periodic_loop url duration_seconds (t_begin env) (rounds env) ?l0 = Some l"
      and r': "r' = finalize_periodic (t_begin env) (t_final env) l"
    from periodic_loop_invariants(2) [OF loop] show ?thesis
      by (simp add: r' finalize_carried finalize_status)
  qed
qed

text \<open>
  Claim C5 at a failing input. In continuous mode a diagnostic line \<open>Connection error\<close>
  is counted as one error, yet \<open>disconnects\<close> stays empty and \<open>disconnects_count\<close> stays
  0; in periodic mode one probe that ends in \<open>error\<close> appends one entry.
\<close>

theorem continuous_window_no_disconnect:
  "map_option (c_issues \<circ> fst) (returned (probe_channel
        (continuous_env [] [''Connection error''] 60)
        True 60 (1, ''A'', ''http://a'') (new_channel_json Map.empty (1, ''A'', ''http://a''))))
     = Some (0, 1)
   \<and> map_option (c_disconnects \<circ> fst) (returned (probe_channel
        (continuous_env [] [''Connection error''] 60)
        True 60 (1, ''A'', ''http://a'') (new_channel_json Map.empty (1, ''A'', ''http://a''))))
     = Some []
   \<and> map_option (c_disconnects_count \<circ> fst) (returned (probe_channel
        (continuous_env [] [''Connection error''] 60)
        True 60 (1, ''A'', ''http://a'') (new_channel_json Map.empty (1, ''A'', ''http://a''))))
     = Some 0
   \<and> map_option (c_disconnects \<circ> fst) (returned (probe_channel
        (periodic_env [round_at 0 failed_probe, round_at 8 quiet_probe] 8)
        False 8 (1, ''A'', ''http://a'') (new_channel_json Map.empty (1, ''A'', ''http://a''))))
     = Some [1]"
proof -
  have a: "map_option (c_issues \<circ> fst) (returned (probe_channel
        (continuous_env [] [''Connection error''] 60)
        True 60 (1, ''A'', ''http://a'') (new_channel_json Map.empty (1, ''A'', ''http://a''))))
     = Some (0, 1)"
    by code_simp
  have b: "map_option (c_disconnects \<circ> fst) (returned (probe_channel
        (continuous_env [] [''Connection error''] 60)
        True 60 (1, ''A'', ''http://a'') (new_channel_json Map.empty (1, ''A'', ''http://a''))))
     = Some []"
    by code_simp
  have c: "map_option (c_disconnects_count \<circ> fst) (returned (probe_channel
        (continuous_env [] [''Connection error''] 60)
        True 60 (1, ''A'', ''http://a'') (new_channel_json Map.empty (1, ''A'', ''http://a''))))
     = Some 0"
    by code_simp
  have d: "map_option (c_disconnects \<circ> fst) (returned (probe_channel
        (periodic_env [round_at 0 failed_probe, round_at 8 quiet_probe] 8)
        False 8 (1, ''A'', ''http://a'') (new_channel_json Map.empty (1, ''A'', ''http://a''))))
     = Some [1]"
    by code_simp
  from a b c d show ?thesis by (intro conjI)
qed

section \<open>Properties of the carry-over\<close>

lemma fold_previous_counts:
  "fold (\<lambda>ch m. m(c_name ch \<mapsto> f ch)) prev m0 name
     = (case find (\<lambda>p. c_name p = name) (rev prev) of Some p \<Rightarrow> Some (f p) | None \<Rightarrow> m0 name)"
  by (induction prev arbitrary: m0 rule: rev_induct) simp_all

text \<open>
  Claim C6. In an iteration numbered above 1, the record created for a channel whose name
  occurs in the \<open>results.json\<close> of the iteration before takes \<open>disconnects_count\<close>,
  \<open>disconnects\<close>, \<open>buffering_total_seconds\<close> and \<open>buffering_events\<close> from the record of
  that name there (the last one, should the name occur more than once); every other field
  has its initial value: status \<open>pending\<close>, both issue counters 0, no details, no
  resolution, no probe duration, 0 tested seconds.
\<close>

theorem carry_over:
  assumes "1 < current_iteration"
    and "results_file = Some prev"
    and "find (\<lambda>p. c_name p = name) (rev prev) = Some p"
    and "i < length channels_to_check"
    and "channels_to_check ! i = (cid, name, url)"
  shows "make_channels_json current_iteration results_file channels_to_check ! i =
     \<lparr>c_name = name, c_status = Pending, c_details = '''', c_url = url, c_resolution = '''',
      c_test_duration = '''', c_tested_seconds = 0, c_issues = (0, 0),
      c_disconnects_count = c_disconnects_count p,
      c_disconnects = c_disconnects p,
      c_buffering_total_seconds = c_buffering_total_seconds p,
      c_buffering_events = c_buffering_events p\<rparr>"
proof -
  from assms(1,2) have "load_previous_counts current_iteration results_file name
      = (case find (\<lambda>p. c_name p = name) (rev prev) of
           Some p \<Rightarrow> Some \<lparr>k_buffering_events = c_buffering_events p,
                     k_disconnects = c_disconnects p,
                     k_disconnects_count = c_disconnects_count p,
                     k_buffering_total_seconds = c_buffering_total_seconds p\<rparr>
         | None \<Rightarrow> None)"
    by (simp add: load_previous_counts_def fold_previous_counts)
  with assms(3) have "load_previous_counts current_iteration results_file name
      = Some \<lparr>k_buffering_events = c_buffering_events p,
                     k_disconnects = c_disconnects p,
                     k_disconnects_count = c_disconnects_count p,
                     k_buffering_total_seconds = c_buffering_total_seconds p\<rparr>"
    by simp
  with assms(4,5) show ?thesis
    by (simp add: make_channels_json_def new_channel_json_def)
qed

theorem carry_over_witness:
  "make_channels_json 2
      (Some [\<lparr>c_name = ''A'', c_status = Issue, c_details = ''timeout'', c_url = ''http://a'',
              c_resolution = ''1280x720'', c_test_duration = ''1.00s'', c_tested_seconds = 60,
              c_issues = (1, 2), c_disconnects_count = 2, c_disconnects = [100, 130],
              c_buffering_total_seconds = 1 / 5, c_buffering_events = [1 / 5]\<rparr>])
      [(7, ''A'', ''http://a'')] ! 0
    = \<lparr>c_name = ''A'', c_status = Pending, c_details = '''', c_url = ''http://a'',
       c_resolution = '''', c_test_duration = '''', c_tested_seconds = 0, c_issues = (0, 0),
       c_disconnects_count = 2, c_disconnects = [100, 130],
       c_buffering_total_seconds = 1 / 5, c_buffering_events = [1 / 5]\<rparr>"
proof -
  let ?p = "\<lparr>c_name = ''A'', c_status = Issue, c_details = ''timeout'', c_url = ''http://a'',
              c_resolution = ''1280x720'', c_test_duration = ''1.00s'', c_tested_seconds = 60,
              c_issues = (1, 2), c_disconnects_count = 2, c_disconnects = [100, 130],
              c_buffering_total_seconds = 1 / 5, c_buffering_events = [1 / 5]\<rparr>"
  have 1: "(1::int) < 2" by simp
  have 3: "find (\<lambda>p. c_name p = ''A'') (rev [?p]) = Some ?p" by simp
  have 4: "0 < length [(7::int, ''A'', ''http://a'')]" by simp
  have 5: "[(7::int, ''A'', ''http://a'')] ! 0 = (7, ''A'', ''http://a'')" by simp
  from carry_over [OF 1 refl 3 4 5] show ?thesis by simp
qed

end
